theory Spec2Isabelle
  imports Complex_Main
begin

section \<open>The drawing canvas of the note application\<close>

text \<open>
  This theory embeds the script of \<^verbatim>\<open>src/lib/components/drawing/DrawingCanvas.svelte\<close>:
  the shape model, the eraser's hit test, the gesture handlers, the history stacks and
  the load/save boundary.

  Modelling decisions.
  \<^item> JavaScript numbers are modelled as real numbers: rounding, NaN and signed zero are
    outside the model. The one place where the source divides is the line hit test;
    the quotient \<open>0 / 0\<close> it produces for a degenerate line is written into the model
    as the comparison's result \<open>False\<close>.
  \<^item> The module-level variables of the script are the fields of the record \<open>session\<close>;
    every handler takes the session and returns an \<open>outcome\<close>: the session it leaves
    behind, and whether it returned or threw.
  \<^item> The variable \<open>drawings\<close> holds a reference to an array object whose elements are
    references to shape objects. Both kinds of object live in a heap that is part of the
    session: \<open>push\<close> changes the array in place, the eraser changes path objects in
    place, and a snapshot handed over on save holds the reference, not a copy.
  \<^item> Other arrays are lists with the last element at the end: \<open>push\<close> appends, \<open>pop\<close>
    removes \<open>last\<close>, \<open>shift\<close> removes \<open>hd\<close>.
  \<^item> A history entry is the string \<open>JSON.stringify(drawings)\<close>, an immutable value; it is
    modelled as the list of shape values read through the heap, and \<open>JSON.parse\<close>
    allocates new objects for it.
  \<^item> Of the 2D context only one fact is kept: whether \<open>ctx\<close> has been assigned.
    \<open>redrawCanvas\<close> begins with \<open>ctx.fillStyle = ...\<close>, which throws a TypeError while
    \<open>ctx\<close> is undefined; the statements of a handler after that call are then not
    executed, the assignments before it stay. With \<open>ctx\<close> assigned the drawing calls
    change no script variable.
  \<^item> The model is of one rendering of the modal. Pointer events and the buttons exist
    only while the modal is open, and the canvas element with them; closing and
    reopening the modal replaces the canvas element, which is outside the model.
\<close>

subsection \<open>Shape model\<close>

datatype point = Point (px: real) (py: real)

text \<open>
  The four shapes, with the fields in the order the object literals of the source list
  them:
  \<^item> \<open>Path path strokeColor strokeWidth roughness\<close>
  \<^item> \<open>Rectangle x y width height strokeColor strokeWidth fillColor roughness\<close>
  \<^item> \<open>Circle x y radius strokeColor strokeWidth fillColor roughness\<close>
  \<^item> \<open>Line x1 y1 x2 y2 strokeColor strokeWidth roughness\<close>
\<close>

datatype shape =
    Path "point list" string real real
  | Rectangle real real real real string real string real
  | Circle real real real string real string real
  | Line real real real real string real real

datatype tool = ToolPen | ToolRectangle | ToolCircle | ToolLine | ToolEraser

subsection \<open>The heap of shape objects and arrays\<close>

type_synonym ref = nat

record js_heap =
  shape_objs :: "ref \<Rightarrow> shape"
  array_objs :: "ref \<Rightarrow> ref list"
  next_ref :: ref

text \<open>A heap with nothing allocated; the content of unallocated cells is never read.\<close>

definition empty_heap :: js_heap where
  "empty_heap = \<lparr> shape_objs = (\<lambda>a. Path [] [] 0 0), array_objs = (\<lambda>r. []), next_ref = 0 \<rparr>"

text \<open>An array literal or the result array of \<open>filter\<close>: a new array object.\<close>

definition new_array :: "ref list \<Rightarrow> js_heap \<Rightarrow> ref \<times> js_heap" where
  "new_array as h =
     (next_ref h,
      h\<lparr>array_objs := (array_objs h)(next_ref h := as), next_ref := Suc (next_ref h)\<rparr>)"

text \<open>An object literal: a new shape object.\<close>

definition new_shape :: "shape \<Rightarrow> js_heap \<Rightarrow> ref \<times> js_heap" where
  "new_shape d h =
     (next_ref h,
      h\<lparr>shape_objs := (shape_objs h)(next_ref h := d), next_ref := Suc (next_ref h)\<rparr>)"

fun new_shapes :: "shape list \<Rightarrow> js_heap \<Rightarrow> ref list \<times> js_heap" where
  "new_shapes [] h = ([], h)"
| "new_shapes (d # ds) h =
     (let (a, h1) = new_shape d h;
          (as, h2) = new_shapes ds h1
      in (a # as, h2))"

text \<open>\<open>array.push(object)\<close>: the array object is changed in place.\<close>

definition push :: "ref \<Rightarrow> ref \<Rightarrow> js_heap \<Rightarrow> js_heap" where
  "push r a h = h\<lparr>array_objs := (array_objs h)(r := array_objs h r @ [a])\<rparr>"

text \<open>The shape values an array holds, as \<open>JSON.stringify\<close> reads them.\<close>

definition read_array :: "js_heap \<Rightarrow> ref \<Rightarrow> shape list" where
  "read_array h r = map (shape_objs h) (array_objs h r)"

text \<open>\<open>JSON.parse\<close> of a stringified shape list: new shape objects in a new array.\<close>

definition JSON_parse :: "shape list \<Rightarrow> js_heap \<Rightarrow> ref \<times> js_heap" where
  "JSON_parse v h = (let (as, h1) = new_shapes v h in new_array as h1)"

subsection \<open>The session\<close>

record session =
  ctx :: bool
  canvas_width :: nat
  canvas_height :: nat
  isDrawing :: bool
  currentPath :: "point list"
  drawings :: ref
  undoStack :: "shape list list"
  redoStack :: "shape list list"
  currentTool :: tool
  strokeColor :: string
  strokeWidth :: real
  fillColor :: string
  roughness :: real
  startX :: real
  startY :: real
  currentX :: real
  currentY :: real
  heap :: js_heap

text \<open>The shape list of a session: the values of the objects in the array that
  \<open>drawings\<close> refers to.\<close>

definition shapes :: "session \<Rightarrow> shape list" where
  "shapes s = read_array (heap s) (drawings s)"

text \<open>What a handler leaves behind: it returned, or it threw a TypeError; in both
  cases the session keeps every assignment made so far.\<close>

datatype outcome = Done session | Threw session

fun state :: "outcome \<Rightarrow> session" where
  "state (Done s) = s"
| "state (Threw s) = s"

text \<open>The object \<open>{ drawings, width, height, timestamp }\<close> handed over on save. The
  \<open>drawings\<close> field is a reference to an array; a value read back from storage may lack
  the field, hence the option.\<close>

record drawingData =
  dd_drawings :: "ref option"
  dd_width :: real
  dd_height :: real
  dd_timestamp :: int

text \<open>The initial values of the script's variables, in the heap \<open>h\<close> the component is
  created in; \<open>let drawings = []\<close> allocates an array. \<open>ctx\<close> is undefined. The size of
  the canvas element itself, before anything sets it, is a parameter (300 by 150 for an
  element without attributes).\<close>

definition script_init :: "nat \<Rightarrow> nat \<Rightarrow> js_heap \<Rightarrow> session" where
  "script_init cw ch h =
     (let (r, h1) = new_array [] h
      in \<lparr> ctx = False, canvas_width = cw, canvas_height = ch,
           isDrawing = False, currentPath = [], drawings = r, undoStack = [], redoStack = [],
           currentTool = ToolPen, strokeColor = ''#000000'', strokeWidth = 2,
           fillColor = ''transparent'', roughness = 1,
           startX = 0, startY = 0, currentX = 0, currentY = 0, heap = h1 \<rparr>)"

subsection \<open>Rendering\<close>

text \<open>\<open>redrawCanvas\<close> calls \<open>clearCanvas\<close>, whose first statement dereferences \<open>ctx\<close>.\<close>

definition redrawCanvas :: "session \<Rightarrow> outcome" where
  "redrawCanvas s = (if ctx s then Done s else Threw s)"

subsection \<open>Geometry and erasing\<close>

definition dist_to :: "real \<Rightarrow> real \<Rightarrow> point \<Rightarrow> real" where
  "dist_to x y p = sqrt ((px p - x)\<^sup>2 + (py p - y)\<^sup>2)"

fun isPointInShape :: "real \<Rightarrow> real \<Rightarrow> shape \<Rightarrow> real \<Rightarrow> bool" where
  "isPointInShape x y (Rectangle sx sy w h sc sw fc ro) radius =
     (x \<ge> sx - radius \<and> x \<le> sx + w + radius \<and> y \<ge> sy - radius \<and> y \<le> sy + h + radius)"
| "isPointInShape x y (Circle sx sy r sc sw fc ro) radius =
     (let dist = sqrt ((x - sx)\<^sup>2 + (y - sy)\<^sup>2) in dist \<le> r + radius)"
| "isPointInShape x y (Line x1 y1 x2 y2 sc sw ro) radius =
     (let lineLength = sqrt ((x2 - x1)\<^sup>2 + (y2 - y1)\<^sup>2)
      in if lineLength = 0 then False
         else \<bar>(y2 - y1) * x - (x2 - x1) * y + x2 * y1 - y2 * x1\<bar> / lineLength \<le> radius)"
| "isPointInShape x y (Path pts sc sw ro) radius = False"

text \<open>The callback of \<open>drawings.filter\<close> in \<open>erase\<close>, applied to the value of one
  drawing object: the value the callback leaves in the object (a path has its points
  filtered in place, also when the path is then dropped) and the boolean it returns.\<close>

fun erase_drawing :: "real \<Rightarrow> real \<Rightarrow> real \<Rightarrow> shape \<Rightarrow> shape \<times> bool" where
  "erase_drawing x y eraseRadius (Path pts sc sw ro) =
     (let pts' = filter (\<lambda>p. dist_to x y p > eraseRadius) pts
      in (Path pts' sc sw ro, length pts' > 1))"
| "erase_drawing x y eraseRadius d = (d, \<not> isPointInShape x y d eraseRadius)"

text \<open>\<open>Array.prototype.filter\<close> with that callback: the elements are visited in order,
  each object is updated before the next is visited, the references for which the
  callback returned true are collected.\<close>

fun filter_drawings ::
  "real \<Rightarrow> real \<Rightarrow> real \<Rightarrow> ref list \<Rightarrow> (ref \<Rightarrow> shape) \<Rightarrow> ref list \<times> (ref \<Rightarrow> shape)" where
  "filter_drawings x y eraseRadius [] objs = ([], objs)"
| "filter_drawings x y eraseRadius (a # as) objs =
     (let (d, keep) = erase_drawing x y eraseRadius (objs a);
          (kept, objs') = filter_drawings x y eraseRadius as (objs(a := d))
      in (if keep then a # kept else kept, objs'))"

definition erase :: "real \<Rightarrow> real \<Rightarrow> session \<Rightarrow> outcome" where
  "erase x y s =
     (let eraseRadius = strokeWidth s * 3;
          (kept, objs) = filter_drawings x y eraseRadius
                           (array_objs (heap s) (drawings s)) (shape_objs (heap s));
          (r, h) = new_array kept ((heap s)\<lparr>shape_objs := objs\<rparr>)
      in redrawCanvas (s\<lparr>drawings := r, heap := h\<rparr>))"

subsection \<open>History\<close>

definition saveState :: "session \<Rightarrow> session" where
  "saveState s =
     (let u = undoStack s @ [shapes s]
      in s\<lparr>undoStack := (if length u > 50 then tl u else u)\<rparr>)"

definition clearRedoStack :: "session \<Rightarrow> session" where
  "clearRedoStack s = s\<lparr>redoStack := []\<rparr>"

definition undo :: "session \<Rightarrow> outcome" where
  "undo s =
     (if length (undoStack s) = 0 then Done s
      else
        let previousState = last (undoStack s);
            (r, h) = JSON_parse previousState (heap s)
        in redrawCanvas (s\<lparr>redoStack := redoStack s @ [shapes s],
                           undoStack := butlast (undoStack s),
                           drawings := r, heap := h\<rparr>))"

definition redo :: "session \<Rightarrow> outcome" where
  "redo s =
     (if length (redoStack s) = 0 then Done s
      else
        let nextState = last (redoStack s);
            (r, h) = JSON_parse nextState (heap s)
        in redrawCanvas (s\<lparr>undoStack := undoStack s @ [shapes s],
                           redoStack := butlast (redoStack s),
                           drawings := r, heap := h\<rparr>))"

definition clearDrawing :: "session \<Rightarrow> outcome" where
  "clearDrawing s =
     (let s1 = saveState s;
          (r, h) = new_array [] (heap s1)
      in case redrawCanvas (s1\<lparr>drawings := r, heap := h\<rparr>) of
           Threw t \<Rightarrow> Threw t
         | Done t \<Rightarrow> Done (clearRedoStack t))"

subsection \<open>Tools and gestures\<close>

definition selectTool :: "tool \<Rightarrow> session \<Rightarrow> session" where
  "selectTool t s = s\<lparr>currentTool := t\<rparr>"

definition selectColor :: "string \<Rightarrow> session \<Rightarrow> session" where
  "selectColor c s = s\<lparr>strokeColor := c\<rparr>"

definition createShape :: "session \<Rightarrow> shape option" where
  "createShape s =
     (let width = \<bar>currentX s - startX s\<bar>;
          height = \<bar>currentY s - startY s\<bar>
      in if width < 5 \<and> height < 5 then None
         else
           let x = min (startX s) (currentX s);
               y = min (startY s) (currentY s)
           in case currentTool s of
                ToolRectangle \<Rightarrow>
                  Some (Rectangle x y width height
                          (strokeColor s) (strokeWidth s) (fillColor s) (roughness s))
              | ToolCircle \<Rightarrow>
                  Some (Circle (startX s) (startY s)
                          (sqrt (width * width + height * height) / 2)
                          (strokeColor s) (strokeWidth s) (fillColor s) (roughness s))
              | ToolLine \<Rightarrow>
                  Some (Line (startX s) (startY s) (currentX s) (currentY s)
                          (strokeColor s) (strokeWidth s) (roughness s))
              | _ \<Rightarrow> None)"

text \<open>\<open>drawings.push({...})\<close>: a new shape object, appended in place to the array that
  \<open>drawings\<close> refers to.\<close>

definition push_drawing :: "shape \<Rightarrow> session \<Rightarrow> session" where
  "push_drawing d s =
     (let (a, h) = new_shape d (heap s) in s\<lparr>heap := push (drawings s) a h\<rparr>)"

text \<open>The handlers take the pointer position already converted to canvas space
  (\<open>getMousePos\<close>, \<open>getTouchPos\<close>).\<close>

definition startDrawing :: "point \<Rightarrow> session \<Rightarrow> outcome" where
  "startDrawing pos s =
     (let s1 = s\<lparr>isDrawing := True, startX := px pos, startY := py pos,
                 currentX := px pos, currentY := py pos\<rparr>
      in if currentTool s1 = ToolPen then Done (saveState (s1\<lparr>currentPath := [pos]\<rparr>))
         else if currentTool s1 = ToolEraser then
           (case erase (px pos) (py pos) s1 of
              Threw t \<Rightarrow> Threw t
            | Done t \<Rightarrow> Done (saveState t))
         else Done (saveState s1))"

definition draw :: "point \<Rightarrow> session \<Rightarrow> outcome" where
  "draw pos s =
     (if \<not> isDrawing s then Done s
      else
        let s1 = s\<lparr>currentX := px pos, currentY := py pos\<rparr>
        in if currentTool s1 = ToolPen then
             redrawCanvas (s1\<lparr>currentPath := currentPath s1 @ [pos]\<rparr>)
           else if currentTool s1 = ToolEraser then erase (px pos) (py pos) s1
           else redrawCanvas s1)"

definition stopDrawing :: "session \<Rightarrow> outcome" where
  "stopDrawing s =
     (if \<not> isDrawing s then Done s
      else
        let s1 = s\<lparr>isDrawing := False\<rparr>;
            s2 = (if currentTool s1 = ToolPen \<and> length (currentPath s1) > 1 then
                    push_drawing
                      (Path (currentPath s1) (strokeColor s1) (strokeWidth s1) (roughness s1)) s1
                  else if currentTool s1 \<noteq> ToolPen \<and> currentTool s1 \<noteq> ToolEraser then
                    (case createShape s1 of
                       Some shape \<Rightarrow> push_drawing shape s1
                     | None \<Rightarrow> s1)
                  else s1)
        in case redrawCanvas (s2\<lparr>currentPath := []\<rparr>) of
             Threw t \<Rightarrow> Threw t
           | Done t \<Rightarrow> Done (clearRedoStack t))"

text \<open>A gesture: pointer-down at \<open>p\<close>, the move samples \<open>ms\<close> in order, pointer-up.
  Each handler runs on the session the one before left behind, whether that one
  returned or threw.\<close>

definition gesture :: "point \<Rightarrow> point list \<Rightarrow> session \<Rightarrow> session" where
  "gesture p ms s =
     state (stopDrawing (fold (\<lambda>m t. state (draw m t)) ms (state (startDrawing p s))))"

subsection \<open>Session boundary\<close>

text \<open>The snapshot gets the reference that \<open>drawings\<close> holds, not a copy of the array,
  and the size of the canvas element. The timestamp \<open>Date.now()\<close> is a parameter.\<close>

definition saveDrawing :: "int \<Rightarrow> session \<Rightarrow> drawingData" where
  "saveDrawing now s =
     \<lparr> dd_drawings = Some (drawings s), dd_width = real (canvas_width s),
       dd_height = real (canvas_height s), dd_timestamp = now \<rparr>"

text \<open>\<open>None\<close> is a \<open>null\<close> or absent argument. An array is truthy in JavaScript even
  when empty, so a present \<open>drawings\<close> field always passes the test.\<close>

definition loadDrawing :: "drawingData option \<Rightarrow> session \<Rightarrow> outcome" where
  "loadDrawing d s =
     (case d of
        None \<Rightarrow> Done s
      | Some dd \<Rightarrow>
          (case dd_drawings dd of
             None \<Rightarrow> Done s
           | Some r \<Rightarrow> redrawCanvas (s\<lparr>drawings := r\<rparr>)))"

text \<open>Assigning a number to \<open>canvas.width\<close> or \<open>canvas.height\<close>: the attributes are of
  type unsigned long, so the number is truncated towards zero and taken modulo \<open>2^32\<close>;
  a result above \<open>2^31 - 1\<close> gives the attribute's default (300 for the width, 150 for
  the height).\<close>

definition to_unsigned_long :: "real \<Rightarrow> nat" where
  "to_unsigned_long v = nat ((if 0 \<le> v then \<lfloor>v\<rfloor> else - \<lfloor>- v\<rfloor>) mod 2 ^ 32)"

definition canvas_size :: "nat \<Rightarrow> real \<Rightarrow> nat" where
  "canvas_size dflt v =
     (let n = to_unsigned_long v in if n \<le> 2147483647 then n else dflt)"

text \<open>\<open>onMount\<close> with the props \<open>width\<close>, \<open>height\<close> and \<open>initialDrawing\<close>; \<open>bound\<close> tells
  whether the canvas element exists when the component is mounted. It exists only if
  the modal is open then: the modal renders its content under \<open>{#if open}\<close>.\<close>

definition onMount :: "bool \<Rightarrow> real \<Rightarrow> real \<Rightarrow> drawingData option \<Rightarrow> session \<Rightarrow> outcome" where
  "onMount bound width height initialDrawing s =
     (if bound then
        let s1 = s\<lparr>ctx := True,
                    canvas_width := canvas_size 300 width,
                    canvas_height := canvas_size 150 height\<rparr>
        in case initialDrawing of
             None \<Rightarrow> Done s1
           | Some dd \<Rightarrow> loadDrawing (Some dd) s1
      else Done s)"

subsection \<open>Sessions as sequences of user actions\<close>

text \<open>What the user can do to an open canvas: a whole gesture on the canvas element, the
  three history buttons, a tool or colour button, and the two sliders (which assign
  \<open>strokeWidth\<close> and \<open>roughness\<close> through \<open>bind:value\<close>).\<close>

datatype action =
    Gesture point "point list"
  | Undo
  | Redo
  | ClearAll
  | SelectTool tool
  | SelectColor string
  | SetStrokeWidth real
  | SetRoughness real

fun perform :: "action \<Rightarrow> session \<Rightarrow> session" where
  "perform (Gesture p ms) s = gesture p ms s"
| "perform Undo s = state (undo s)"
| "perform Redo s = state (redo s)"
| "perform ClearAll s = state (clearDrawing s)"
| "perform (SelectTool t) s = selectTool t s"
| "perform (SelectColor c) s = selectColor c s"
| "perform (SetStrokeWidth w) s = s\<lparr>strokeWidth := w\<rparr>"
| "perform (SetRoughness r) s = s\<lparr>roughness := r\<rparr>"

definition run :: "action list \<Rightarrow> session \<Rightarrow> session" where
  "run acts s = fold perform acts s"

subsection \<open>Vocabulary of the properties\<close>

text \<open>The gestures that end with a shape appended, for each tool: a pen stroke with at
  least one move sample; a shape drag that ends 5 or more away from the anchor on one
  axis. The end of a drag is its last move sample (the pointer-up position is not
  read); without move samples it is the anchor.\<close>

definition commits :: "tool \<Rightarrow> point \<Rightarrow> point list \<Rightarrow> bool" where
  "commits t p ms =
     (case t of
        ToolPen \<Rightarrow> ms \<noteq> []
      | ToolEraser \<Rightarrow> False
      | _ \<Rightarrow> 5 \<le> \<bar>px (last (p # ms)) - px p\<bar> \<or> 5 \<le> \<bar>py (last (p # ms)) - py p\<bar>)"

text \<open>The history entries one expects after committing the shapes \<open>ds\<close> one by one
  from an empty list: before the \<open>k\<close>-th commit the list was \<open>take k ds\<close>; the entries
  of the 50 most recent commits are kept, oldest first.\<close>

definition snapshots_of :: "shape list \<Rightarrow> shape list list" where
  "snapshots_of ds = map (\<lambda>k. take k ds) [length ds - 50..<length ds]"

text \<open>Undo and redo move one entry from one stack to the other, so the bound that
  \<open>saveState\<close> enforces on the undo stack is carried by the sum of the two lengths as
  long as every other action empties the redo stack.\<close>

definition history_inv :: "session \<Rightarrow> bool" where
  "history_inv s = (length (undoStack s) + length (redoStack s) \<le> 50)"

text \<open>The references a session holds are allocated: the array of \<open>drawings\<close> and its
  elements lie below the next free reference. Every session that the handlers produce
  from an initial one is of this kind.\<close>

definition heap_ok :: "session \<Rightarrow> bool" where
  "heap_ok s =
     (drawings s < next_ref (heap s)
      \<and> list_all (\<lambda>a. a < next_ref (heap s)) (array_objs (heap s) (drawings s)))"

text \<open>The line through \<open>(x1, y1)\<close> and \<open>(x2, y2)\<close>, by parameter: \<open>t = 0\<close> and \<open>t = 1\<close>
  are the end points, \<open>0 < t < 1\<close> is the segment, every other \<open>t\<close> lies beyond an end.
  The perpendicular distance of \<open>(x, y)\<close> to that line is its distance to the foot of
  the perpendicular, the point of the line at parameter \<open>foot_param\<close>.\<close>

definition line_point :: "real \<Rightarrow> real \<Rightarrow> real \<Rightarrow> real \<Rightarrow> real \<Rightarrow> point" where
  "line_point x1 y1 x2 y2 t = Point (x1 + t * (x2 - x1)) (y1 + t * (y2 - y1))"

definition foot_param :: "real \<Rightarrow> real \<Rightarrow> real \<Rightarrow> real \<Rightarrow> real \<Rightarrow> real \<Rightarrow> real" where
  "foot_param x y x1 y1 x2 y2 =
     ((x - x1) * (x2 - x1) + (y - y1) * (y2 - y1)) / ((x2 - x1)\<^sup>2 + (y2 - y1)\<^sup>2)"

definition perp_dist :: "real \<Rightarrow> real \<Rightarrow> real \<Rightarrow> real \<Rightarrow> real \<Rightarrow> real \<Rightarrow> real" where
  "perp_dist x y x1 y1 x2 y2 =
     dist_to x y (line_point x1 y1 x2 y2 (foot_param x y x1 y1 x2 y2))"

text \<open>What one erase sample at \<open>(x, y)\<close> with radius \<open>r\<close> is to do to a freehand path:
  the points at distance at most \<open>r\<close> go, the others stay in order, and a path left
  with fewer than 2 points goes altogether.\<close>

fun is_path :: "shape \<Rightarrow> bool" where
  "is_path (Path pts sc sw ro) = True"
| "is_path d = False"

fun erased_path :: "real \<Rightarrow> real \<Rightarrow> real \<Rightarrow> shape \<Rightarrow> shape list" where
  "erased_path x y r (Path pts sc sw ro) =
     (let kept = filter (\<lambda>p. \<not> dist_to x y p \<le> r) pts
      in if length kept < 2 then [] else [Path kept sc sw ro])"
| "erased_path x y r d = [d]"

subsection \<open>Example sessions\<close>

text \<open>A component mounted while its canvas element exists (the modal open at mount):
  \<open>onMount\<close> assigns the context and sizes the canvas from the default props.\<close>

definition open_session :: session where
  "open_session = state (onMount True 800 600 None (script_init 300 150 empty_heap))"

text \<open>The component as \<^verbatim>\<open>MainEditor.svelte\<close> mounts it, the only mount in the
  repository: \<open>showDrawing\<close> is false, the modal renders nothing, \<open>onMount\<close> finds no
  canvas element and assigns nothing. When the modal opens later the canvas element is
  bound with its own size, and \<open>ctx\<close> stays undefined.\<close>

definition editor_session :: session where
  "editor_session = state (onMount False 800 600 None (script_init 300 150 empty_heap))"

text \<open>The scenario of the specification: a rectangle dragged from (10,10) to (60,60)
  with the default style; then the same with the eraser selected, and a pen stroke
  through three points with the eraser selected.\<close>

definition scenario :: session where
  "scenario = gesture (Point 10 10) [Point 60 60] (selectTool ToolRectangle open_session)"

definition three_point_stroke :: session where
  "three_point_stroke =
     selectTool ToolEraser (gesture (Point 0 0) [Point 10 0, Point 20 0] open_session)"

definition erase_demo :: session where
  "erase_demo = selectTool ToolEraser scenario"

text \<open>The same rectangle drawn in the session of the note editor, and that session
  after one \<open>undo\<close>.\<close>

definition editor_rect :: session where
  "editor_rect = gesture (Point 10 10) [Point 60 60] (selectTool ToolRectangle editor_session)"

definition editor_after_undo :: session where
  "editor_after_undo = state (undo editor_rect)"

text \<open>Fifty pen strokes, an undo, one more stroke, a redo.\<close>

definition overflow_actions :: "action list" where
  "overflow_actions =
     replicate 50 (Gesture (Point 0 0) [Point 10 10])
     @ [Undo, Gesture (Point 0 0) [Point 10 10], Redo]"

text \<open>A stored drawing of one line, of another size than the canvas: the heap that
  holds its array, and the snapshot.\<close>

definition stored_heap :: js_heap where
  "stored_heap = snd (JSON_parse [Line 0 0 10 10 ''#000000'' 2 1] empty_heap)"

definition small_snapshot :: drawingData where
  "small_snapshot =
     \<lparr> dd_drawings = Some (fst (JSON_parse [Line 0 0 10 10 ''#000000'' 2 1] empty_heap)),
       dd_width = 400, dd_height = 300, dd_timestamp = 0 \<rparr>"

section \<open>The heap\<close>

lemma new_shape_simps [simp]:
  "fst (new_shape d h) = next_ref h"
  "next_ref (snd (new_shape d h)) = Suc (next_ref h)"
  "array_objs (snd (new_shape d h)) = array_objs h"
  "shape_objs (snd (new_shape d h)) = (shape_objs h)(next_ref h := d)"
  by (simp_all add: new_shape_def)

lemma new_array_simps [simp]:
  "fst (new_array as h) = next_ref h"
  "next_ref (snd (new_array as h)) = Suc (next_ref h)"
  "shape_objs (snd (new_array as h)) = shape_objs h"
  "array_objs (snd (new_array as h)) = (array_objs h)(next_ref h := as)"
  by (simp_all add: new_array_def)

lemma push_simps [simp]:
  "next_ref (push r a h) = next_ref h"
  "shape_objs (push r a h) = shape_objs h"
  "array_objs (push r a h) = (array_objs h)(r := array_objs h r @ [a])"
  by (simp_all add: push_def)

lemma new_shapes_next [simp]: "next_ref (snd (new_shapes ds h)) = next_ref h + length ds"
  by (induction ds arbitrary: h) (simp_all add: split_beta)

lemma new_shapes_arrays [simp]: "array_objs (snd (new_shapes ds h)) = array_objs h"
  by (induction ds arbitrary: h) (simp_all add: split_beta)

lemma new_shapes_old:
  "a < next_ref h \<Longrightarrow> shape_objs (snd (new_shapes ds h)) a = shape_objs h a"
  by (induction ds arbitrary: h) (simp_all add: split_beta)

lemma new_shapes_read:
  "map (shape_objs (snd (new_shapes ds h))) (fst (new_shapes ds h)) = ds"
proof (induction ds arbitrary: h)
  case Nil
  then show ?case by simp
next
  case (Cons d ds)
  have "shape_objs (snd (new_shapes ds (snd (new_shape d h)))) (next_ref h) = d"
    by (simp add: new_shapes_old)
  with Cons.IH [of "snd (new_shape d h)"] show ?case by (simp add: split_beta)
qed

lemma new_shapes_refs:
  "list_all (\<lambda>a. a < next_ref h + length ds) (fst (new_shapes ds h))"
proof (induction ds arbitrary: h)
  case Nil
  then show ?case by simp
next
  case (Cons d ds)
  from Cons.IH [of "snd (new_shape d h)"] show ?case
    by (simp add: split_beta)
qed

lemma JSON_parse_read:
  "read_array (snd (JSON_parse v h)) (fst (JSON_parse v h)) = v"
  by (simp add: JSON_parse_def read_array_def split_beta new_shapes_read)

lemma read_new_array:
  "read_array (snd (new_array as h)) (fst (new_array as h)) = map (shape_objs h) as"
  by (simp add: read_array_def)

section \<open>The handlers, field by field\<close>

lemma state_redrawCanvas [simp]: "state (redrawCanvas s) = s"
  by (simp add: redrawCanvas_def)

lemma shapes_saveState [simp]: "shapes (saveState s) = shapes s"
  by (simp add: shapes_def saveState_def Let_def)

lemma state_erase:
  "state (erase x y s) =
     s\<lparr>drawings := next_ref (heap s),
       heap := snd (new_array
                 (fst (filter_drawings x y (strokeWidth s * 3)
                        (array_objs (heap s) (drawings s)) (shape_objs (heap s))))
                 ((heap s)\<lparr>shape_objs :=
                    snd (filter_drawings x y (strokeWidth s * 3)
                          (array_objs (heap s) (drawings s)) (shape_objs (heap s)))\<rparr>))\<rparr>"
  by (simp add: erase_def Let_def split_beta)

lemma erase_fields [simp]:
  "undoStack (state (erase x y s)) = undoStack s"
  "redoStack (state (erase x y s)) = redoStack s"
  "isDrawing (state (erase x y s)) = isDrawing s"
  "currentTool (state (erase x y s)) = currentTool s"
  "strokeWidth (state (erase x y s)) = strokeWidth s"
  "currentPath (state (erase x y s)) = currentPath s"
  "startX (state (erase x y s)) = startX s"
  "startY (state (erase x y s)) = startY s"
  "currentX (state (erase x y s)) = currentX s"
  "currentY (state (erase x y s)) = currentY s"
  "ctx (state (erase x y s)) = ctx s"
  by (simp_all add: state_erase)

lemma saveState_fields [simp]:
  "redoStack (saveState s) = redoStack s"
  "isDrawing (saveState s) = isDrawing s"
  "currentTool (saveState s) = currentTool s"
  "strokeWidth (saveState s) = strokeWidth s"
  "drawings (saveState s) = drawings s"
  "heap (saveState s) = heap s"
  "currentPath (saveState s) = currentPath s"
  "startX (saveState s) = startX s"
  "startY (saveState s) = startY s"
  "currentX (saveState s) = currentX s"
  "currentY (saveState s) = currentY s"
  "ctx (saveState s) = ctx s"
  by (simp_all add: saveState_def Let_def)

lemma saveState_undoStack:
  "undoStack (saveState s) =
     (if length (undoStack s) < 50 then undoStack s @ [shapes s]
      else tl (undoStack s @ [shapes s]))"
  by (simp add: saveState_def Let_def)

lemma saveState_bound: "length (undoStack s) \<le> 50 \<Longrightarrow> length (undoStack (saveState s)) \<le> 50"
  by (simp add: saveState_undoStack)

lemma saveState_last: "undoStack (saveState s) \<noteq> [] \<and> last (undoStack (saveState s)) = shapes s"
  by (cases "undoStack s") (simp_all add: saveState_undoStack)

lemma state_startDrawing:
  "state (startDrawing p s) =
     (let s1 = s\<lparr>isDrawing := True, startX := px p, startY := py p,
                 currentX := px p, currentY := py p\<rparr>
      in if currentTool s = ToolPen then saveState (s1\<lparr>currentPath := [p]\<rparr>)
         else if currentTool s = ToolEraser then
           (if ctx s then saveState (state (erase (px p) (py p) s1))
            else state (erase (px p) (py p) s1))
         else saveState s1)"
  by (cases "ctx s") (simp_all add: startDrawing_def Let_def erase_def split_beta redrawCanvas_def)

lemma startDrawing_fields [simp]:
  "isDrawing (state (startDrawing p s))"
  "redoStack (state (startDrawing p s)) = redoStack s"
  "currentTool (state (startDrawing p s)) = currentTool s"
  "strokeWidth (state (startDrawing p s)) = strokeWidth s"
  "startX (state (startDrawing p s)) = px p"
  "startY (state (startDrawing p s)) = py p"
  "currentX (state (startDrawing p s)) = px p"
  "currentY (state (startDrawing p s)) = py p"
  "ctx (state (startDrawing p s)) = ctx s"
  by (simp_all add: state_startDrawing Let_def)

lemma state_draw:
  "state (draw p s) =
     (if \<not> isDrawing s then s
      else
        let s1 = s\<lparr>currentX := px p, currentY := py p\<rparr>
        in if currentTool s = ToolPen then s1\<lparr>currentPath := currentPath s @ [p]\<rparr>
           else if currentTool s = ToolEraser then state (erase (px p) (py p) s1)
           else s1)"
  by (simp add: draw_def Let_def)

lemma draw_fields [simp]:
  "undoStack (state (draw p s)) = undoStack s"
  "redoStack (state (draw p s)) = redoStack s"
  "isDrawing (state (draw p s)) = isDrawing s"
  "currentTool (state (draw p s)) = currentTool s"
  "strokeWidth (state (draw p s)) = strokeWidth s"
  "startX (state (draw p s)) = startX s"
  "startY (state (draw p s)) = startY s"
  "ctx (state (draw p s)) = ctx s"
  by (simp_all add: state_draw Let_def)

lemma fold_draw_fields [simp]:
  "undoStack (fold (\<lambda>m t. state (draw m t)) ms s) = undoStack s"
  "redoStack (fold (\<lambda>m t. state (draw m t)) ms s) = redoStack s"
  "isDrawing (fold (\<lambda>m t. state (draw m t)) ms s) = isDrawing s"
  "currentTool (fold (\<lambda>m t. state (draw m t)) ms s) = currentTool s"
  "strokeWidth (fold (\<lambda>m t. state (draw m t)) ms s) = strokeWidth s"
  "startX (fold (\<lambda>m t. state (draw m t)) ms s) = startX s"
  "startY (fold (\<lambda>m t. state (draw m t)) ms s) = startY s"
  "ctx (fold (\<lambda>m t. state (draw m t)) ms s) = ctx s"
  by (induction ms arbitrary: s; simp)+

lemma fold_draw_drawings:
  "currentTool s \<noteq> ToolEraser \<Longrightarrow>
     drawings (fold (\<lambda>m t. state (draw m t)) ms s) = drawings s
     \<and> heap (fold (\<lambda>m t. state (draw m t)) ms s) = heap s"
  by (induction ms arbitrary: s) (simp_all add: state_draw Let_def)

lemma fold_draw_currentPath:
  "isDrawing s \<Longrightarrow> currentTool s = ToolPen \<Longrightarrow>
     currentPath (fold (\<lambda>m t. state (draw m t)) ms s) = currentPath s @ ms"
  by (induction ms arbitrary: s) (simp_all add: state_draw Let_def)

lemma fold_draw_current:
  "isDrawing s \<Longrightarrow>
     currentX (fold (\<lambda>m t. state (draw m t)) ms s) = px (last (Point (currentX s) (currentY s) # ms)) \<and>
     currentY (fold (\<lambda>m t. state (draw m t)) ms s) = py (last (Point (currentX s) (currentY s) # ms))"
proof (induction ms arbitrary: s)
  case Nil
  then show ?case by simp
next
  case (Cons m ms)
  have d: "isDrawing (state (draw m s))" "currentX (state (draw m s)) = px m"
    "currentY (state (draw m s)) = py m"
    using Cons.prems by (simp_all add: state_draw Let_def)
  show ?case using Cons.IH [OF d(1)] by (simp add: d)
qed

lemma push_drawing_fields [simp]:
  "undoStack (push_drawing d s) = undoStack s"
  "redoStack (push_drawing d s) = redoStack s"
  "currentTool (push_drawing d s) = currentTool s"
  "strokeWidth (push_drawing d s) = strokeWidth s"
  "ctx (push_drawing d s) = ctx s"
  "drawings (push_drawing d s) = drawings s"
  "isDrawing (push_drawing d s) = isDrawing s"
  by (simp_all add: push_drawing_def split_beta)

lemma state_stopDrawing:
  "state (stopDrawing s) =
     (if \<not> isDrawing s then s
      else
        let s1 = s\<lparr>isDrawing := False\<rparr>;
            s2 = (if currentTool s1 = ToolPen \<and> length (currentPath s1) > 1 then
                    push_drawing
                      (Path (currentPath s1) (strokeColor s1) (strokeWidth s1) (roughness s1)) s1
                  else if currentTool s1 \<noteq> ToolPen \<and> currentTool s1 \<noteq> ToolEraser then
                    (case createShape s1 of
                       Some shape \<Rightarrow> push_drawing shape s1
                     | None \<Rightarrow> s1)
                  else s1)
        in if ctx s then clearRedoStack (s2\<lparr>currentPath := []\<rparr>) else s2\<lparr>currentPath := []\<rparr>)"
  by (simp add: stopDrawing_def Let_def redrawCanvas_def split: option.splits)

lemma stopDrawing_fields [simp]:
  "undoStack (state (stopDrawing s)) = undoStack s"
  "currentTool (state (stopDrawing s)) = currentTool s"
  "strokeWidth (state (stopDrawing s)) = strokeWidth s"
  "ctx (state (stopDrawing s)) = ctx s"
  by (simp_all add: state_stopDrawing Let_def clearRedoStack_def split: option.splits)

lemma stopDrawing_redoStack:
  "isDrawing s \<Longrightarrow> redoStack (state (stopDrawing s)) = (if ctx s then [] else redoStack s)"
  by (simp add: state_stopDrawing Let_def clearRedoStack_def split: option.splits)

lemma gesture_redoStack:
  "redoStack (gesture p ms s) = (if ctx s then [] else redoStack s)"
  by (simp add: gesture_def stopDrawing_redoStack)

lemma gesture_fields [simp]:
  "currentTool (gesture p ms s) = currentTool s"
  "strokeWidth (gesture p ms s) = strokeWidth s"
  "ctx (gesture p ms s) = ctx s"
  by (simp_all add: gesture_def)

lemma gesture_undoStack:
  "currentTool s \<noteq> ToolEraser \<Longrightarrow>
     undoStack (gesture p ms s) =
       (if length (undoStack s) < 50 then undoStack s @ [shapes s]
        else tl (undoStack s @ [shapes s]))"
  by (simp add: gesture_def state_startDrawing Let_def saveState_undoStack shapes_def)

lemma gesture_undoStack_start:
  "undoStack (gesture p ms s) = undoStack (state (startDrawing p s))"
  by (simp add: gesture_def)

lemma undo_fields [simp]:
  "currentTool (state (undo s)) = currentTool s"
  "strokeWidth (state (undo s)) = strokeWidth s"
  "ctx (state (undo s)) = ctx s"
  by (simp_all add: undo_def Let_def split_beta)

lemma redo_fields [simp]:
  "currentTool (state (redo s)) = currentTool s"
  "strokeWidth (state (redo s)) = strokeWidth s"
  "ctx (state (redo s)) = ctx s"
  by (simp_all add: redo_def Let_def split_beta)

lemma undo_stacks:
  "undoStack s \<noteq> [] \<Longrightarrow>
     undoStack (state (undo s)) = butlast (undoStack s)
     \<and> redoStack (state (undo s)) = redoStack s @ [shapes s]"
  by (simp add: undo_def Let_def split_beta)

lemma redo_stacks:
  "redoStack s \<noteq> [] \<Longrightarrow>
     undoStack (state (redo s)) = undoStack s @ [shapes s]
     \<and> redoStack (state (redo s)) = butlast (redoStack s)"
  by (simp add: redo_def Let_def split_beta)

lemma redo_empty: "redoStack s = [] \<Longrightarrow> redo s = Done s"
  by (simp add: redo_def)

lemma state_clearDrawing:
  "state (clearDrawing s) =
     (let s1 = saveState s;
          s2 = s1\<lparr>drawings := fst (new_array [] (heap s1)), heap := snd (new_array [] (heap s1))\<rparr>
      in if ctx s then clearRedoStack s2 else s2)"
  by (simp add: clearDrawing_def Let_def split_beta redrawCanvas_def saveState_def)

lemma clearDrawing_redoStack:
  "redoStack (state (clearDrawing s)) = (if ctx s then [] else redoStack s)"
  by (simp add: state_clearDrawing Let_def clearRedoStack_def)

lemma startDrawing_drawings:
  "currentTool s \<noteq> ToolEraser \<Longrightarrow>
     drawings (state (startDrawing p s)) = drawings s \<and> heap (state (startDrawing p s)) = heap s"
  by (simp add: state_startDrawing Let_def)

lemma fold_draw_style:
  "strokeColor (fold (\<lambda>m t. state (draw m t)) ms s) = strokeColor s
   \<and> fillColor (fold (\<lambda>m t. state (draw m t)) ms s) = fillColor s
   \<and> roughness (fold (\<lambda>m t. state (draw m t)) ms s) = roughness s"
  by (induction ms arbitrary: s) (simp_all add: state_draw Let_def state_erase)

lemma startDrawing_style:
  "strokeColor (state (startDrawing p s)) = strokeColor s
   \<and> fillColor (state (startDrawing p s)) = fillColor s
   \<and> roughness (state (startDrawing p s)) = roughness s"
  by (simp add: state_startDrawing Let_def saveState_def state_erase)

lemma undo_style [simp]:
  "strokeColor (state (undo s)) = strokeColor s"
  "fillColor (state (undo s)) = fillColor s"
  "roughness (state (undo s)) = roughness s"
  by (simp_all add: undo_def Let_def split_beta)

lemma gesture_style [simp]:
  "strokeColor (gesture p ms s) = strokeColor s"
  "fillColor (gesture p ms s) = fillColor s"
  "roughness (gesture p ms s) = roughness s"
  by (simp_all add: gesture_def state_stopDrawing Let_def clearRedoStack_def push_drawing_def
      split_beta fold_draw_style startDrawing_style split: option.splits)

lemma selectTool_fields [simp]:
  "currentTool (selectTool t s) = t"
  "shapes (selectTool t s) = shapes s"
  "undoStack (selectTool t s) = undoStack s"
  "redoStack (selectTool t s) = redoStack s"
  "strokeWidth (selectTool t s) = strokeWidth s"
  "ctx (selectTool t s) = ctx s"
  "heap_ok (selectTool t s) = heap_ok s"
  by (simp_all add: selectTool_def shapes_def heap_ok_def)

lemma selectTool_style [simp]:
  "strokeColor (selectTool t s) = strokeColor s"
  "fillColor (selectTool t s) = fillColor s"
  "roughness (selectTool t s) = roughness s"
  by (simp_all add: selectTool_def)

lemma selectTool_same: "currentTool s = t \<Longrightarrow> selectTool t s = s"
  by (simp add: selectTool_def)

lemma script_init_fields [simp]:
  "ctx (script_init cw ch h) = False"
  "canvas_width (script_init cw ch h) = cw"
  "canvas_height (script_init cw ch h) = ch"
  "isDrawing (script_init cw ch h) = False"
  "undoStack (script_init cw ch h) = []"
  "redoStack (script_init cw ch h) = []"
  "currentTool (script_init cw ch h) = ToolPen"
  "strokeWidth (script_init cw ch h) = 2"
  "drawings (script_init cw ch h) = next_ref h"
  "heap (script_init cw ch h) = snd (new_array [] h)"
  by (simp_all add: script_init_def split_beta)

lemma run_append: "run (xs @ ys) s = run ys (run xs s)"
  by (simp add: run_def)

section \<open>The shape list after each handler\<close>

lemma shapes_frame: "drawings t = drawings s \<Longrightarrow> heap t = heap s \<Longrightarrow> shapes t = shapes s"
  by (simp add: shapes_def)

lemma shapes_script_init [simp]: "shapes (script_init cw ch h) = []"
  by (simp add: shapes_def read_array_def)

lemma shapes_undo:
  "undoStack s \<noteq> [] \<Longrightarrow> shapes (state (undo s)) = last (undoStack s)"
  by (simp add: undo_def Let_def split_beta shapes_def JSON_parse_read)

lemma shapes_redo:
  "redoStack s \<noteq> [] \<Longrightarrow> shapes (state (redo s)) = last (redoStack s)"
  by (simp add: redo_def Let_def split_beta shapes_def JSON_parse_read)

lemma shapes_clearDrawing [simp]: "shapes (state (clearDrawing s)) = []"
  by (simp add: state_clearDrawing Let_def shapes_def read_array_def clearRedoStack_def)

lemma erase_drawing_again:
  "erase_drawing x y r (fst (erase_drawing x y r d)) = erase_drawing x y r d"
  by (cases d) (simp_all add: Let_def)

text \<open>The filter loop of the eraser, as one step on values: every object of the array
  gets the value the callback leaves, the references the callback accepts are kept.
  An object that occurs twice in the array is visited twice, to the same effect.\<close>

lemma filter_drawings_eq:
  "filter_drawings x y r as objs =
     (filter (\<lambda>a. snd (erase_drawing x y r (objs a))) as,
      (\<lambda>a. if a \<in> set as then fst (erase_drawing x y r (objs a)) else objs a))"
proof (induction as arbitrary: objs)
  case Nil
  then show ?case by simp
next
  case (Cons a as)
  let ?objs1 = "objs(a := fst (erase_drawing x y r (objs a)))"
  have k: "(\<lambda>b. snd (erase_drawing x y r (?objs1 b))) = (\<lambda>b. snd (erase_drawing x y r (objs b)))"
    by (rule ext) (simp add: erase_drawing_again)
  have e: "(\<lambda>b. fst (erase_drawing x y r (?objs1 b))) = (\<lambda>b. fst (erase_drawing x y r (objs b)))"
    by (rule ext) (simp add: erase_drawing_again)
  have o: "(\<lambda>b. if b \<in> set as then fst (erase_drawing x y r (?objs1 b)) else ?objs1 b)
      = (\<lambda>b. if b \<in> set (a # as) then fst (erase_drawing x y r (objs b)) else objs b)"
    by (rule ext) (simp add: erase_drawing_again)
  have ih: "filter_drawings x y r as ?objs1 =
     (filter (\<lambda>b. snd (erase_drawing x y r (objs b))) as,
      (\<lambda>b. if b \<in> set (a # as) then fst (erase_drawing x y r (objs b)) else objs b))"
    using Cons.IH [of ?objs1] by (simp only: k o)
  show ?case
    by (simp only: filter_drawings.simps Let_def split_beta ih fst_conv snd_conv) simp
qed

lemma shapes_erase:
  "shapes (state (erase x y s)) =
     map (\<lambda>d. fst (erase_drawing x y (strokeWidth s * 3) d))
       (filter (\<lambda>d. snd (erase_drawing x y (strokeWidth s * 3) d)) (shapes s))"
  by (simp add: erase_def Let_def split_beta shapes_def read_array_def filter_drawings_eq
      filter_map comp_def cong: map_cong)

lemma shapes_erase_frame:
  "shapes t = shapes s \<Longrightarrow> strokeWidth t = strokeWidth s \<Longrightarrow>
     shapes (state (erase x y t)) = shapes (state (erase x y s))"
  by (simp add: shapes_erase)

lemma createShape_small:
  "\<bar>currentX s - startX s\<bar> < 5 \<Longrightarrow> \<bar>currentY s - startY s\<bar> < 5 \<Longrightarrow> createShape s = None"
  by (simp add: createShape_def)

lemma createShape_eq:
  assumes "startX t = startX s" "startY t = startY s" "currentX t = currentX s"
    "currentY t = currentY s" "currentTool t = currentTool s" "strokeColor t = strokeColor s"
    "strokeWidth t = strokeWidth s" "fillColor t = fillColor s" "roughness t = roughness s"
  shows "createShape t = createShape s"
  unfolding createShape_def Let_def assms ..

lemma gesture_no_commit:
  assumes "currentTool s \<noteq> ToolEraser" "\<not> commits (currentTool s) p ms"
  shows "drawings (gesture p ms s) = drawings s \<and> heap (gesture p ms s) = heap s"
proof (cases "currentTool s = ToolPen")
  case True
  let ?s = "fold (\<lambda>m t. state (draw m t)) ms (state (startDrawing p s))"
  have ms: "ms = []" using assms True by (simp add: commits_def)
  have "currentPath (state (startDrawing p s)) = [p]"
    using True by (simp add: state_startDrawing Let_def)
  then show ?thesis
    using True ms by (simp add: gesture_def state_stopDrawing Let_def clearRedoStack_def
        startDrawing_drawings)
next
  case False
  let ?s = "fold (\<lambda>m t. state (draw m t)) ms (state (startDrawing p s))"
  have small: "\<bar>px (last (p # ms)) - px p\<bar> < 5 \<and> \<bar>py (last (p # ms)) - py p\<bar> < 5"
    using assms False by (cases "currentTool s") (simp_all add: commits_def not_le)
  have cur: "currentX ?s = px (last (p # ms))" "currentY ?s = py (last (p # ms))"
    using fold_draw_current [of "state (startDrawing p s)" ms] by simp_all
  have "createShape (?s\<lparr>isDrawing := False\<rparr>) = None"
    using small by (intro createShape_small) (simp_all add: cur del: last.simps)
  moreover have "drawings ?s = drawings s \<and> heap ?s = heap s"
    using assms(1) by (simp add: fold_draw_drawings startDrawing_drawings)
  ultimately show ?thesis
    using False assms(1) by (simp add: gesture_def state_stopDrawing Let_def clearRedoStack_def)
qed

section \<open>Allocated references\<close>

lemma shapes_push_drawing:
  "heap_ok s \<Longrightarrow> shapes (push_drawing d s) = shapes s @ [d]"
  by (auto simp: heap_ok_def push_drawing_def shapes_def read_array_def split_beta list_all_iff)

lemma heap_ok_push_drawing: "heap_ok s \<Longrightarrow> heap_ok (push_drawing d s)"
  by (auto simp: heap_ok_def push_drawing_def split_beta list_all_iff)

lemma heap_ok_cong:
  "drawings t = drawings s \<Longrightarrow> heap t = heap s \<Longrightarrow> heap_ok t = heap_ok s"
  by (simp add: heap_ok_def)

lemma heap_ok_saveState [simp]: "heap_ok (saveState s) = heap_ok s"
  by (simp add: heap_ok_def)

lemma heap_ok_JSON_parse:
  "heap_ok (s\<lparr>drawings := fst (JSON_parse v (heap s)), heap := snd (JSON_parse v (heap s))\<rparr>)"
proof -
  have "list_all (\<lambda>a. a < Suc (next_ref (heap s) + length v)) (fst (new_shapes v (heap s)))"
    using new_shapes_refs [of "heap s" v] by (auto simp: list_all_iff)
  then show ?thesis by (simp add: heap_ok_def JSON_parse_def split_beta)
qed

lemma heap_ok_undo: "heap_ok s \<Longrightarrow> heap_ok (state (undo s))"
proof (cases "undoStack s = []")
  case True
  then show "heap_ok s \<Longrightarrow> ?thesis" by (simp add: undo_def)
next
  case False
  have "heap_ok (state (undo s)) =
      heap_ok (s\<lparr>drawings := fst (JSON_parse (last (undoStack s)) (heap s)),
                 heap := snd (JSON_parse (last (undoStack s)) (heap s))\<rparr>)"
    using False by (intro heap_ok_cong) (simp_all add: undo_def Let_def split_beta)
  then show ?thesis by (simp add: heap_ok_JSON_parse)
qed

lemma heap_ok_redo: "heap_ok s \<Longrightarrow> heap_ok (state (redo s))"
proof (cases "redoStack s = []")
  case True
  then show "heap_ok s \<Longrightarrow> ?thesis" by (simp add: redo_def)
next
  case False
  have "heap_ok (state (redo s)) =
      heap_ok (s\<lparr>drawings := fst (JSON_parse (last (redoStack s)) (heap s)),
                 heap := snd (JSON_parse (last (redoStack s)) (heap s))\<rparr>)"
    using False by (intro heap_ok_cong) (simp_all add: redo_def Let_def split_beta)
  then show ?thesis by (simp add: heap_ok_JSON_parse)
qed

lemma heap_ok_clearDrawing: "heap_ok (state (clearDrawing s))"
  by (simp add: state_clearDrawing Let_def heap_ok_def clearRedoStack_def)

lemma heap_ok_erase: "heap_ok s \<Longrightarrow> heap_ok (state (erase x y s))"
  by (auto simp: state_erase heap_ok_def filter_drawings_eq list_all_iff)

lemma heap_ok_startDrawing: "heap_ok s \<Longrightarrow> heap_ok (state (startDrawing p s))"
proof -
  assume ok: "heap_ok s"
  let ?s1 = "s\<lparr>isDrawing := True, startX := px p, startY := py p,
                 currentX := px p, currentY := py p\<rparr>"
  have "heap_ok ?s1" using ok by (simp add: heap_ok_def)
  then have "heap_ok (state (erase (px p) (py p) ?s1))" by (rule heap_ok_erase)
  then show ?thesis
    using ok by (simp add: state_startDrawing Let_def) (simp add: heap_ok_def)
qed

lemma heap_ok_draw: "heap_ok s \<Longrightarrow> heap_ok (state (draw p s))"
proof -
  assume ok: "heap_ok s"
  let ?s1 = "s\<lparr>currentX := px p, currentY := py p\<rparr>"
  have "heap_ok ?s1" using ok by (simp add: heap_ok_def)
  then have "heap_ok (state (erase (px p) (py p) ?s1))" by (rule heap_ok_erase)
  then show ?thesis
    using ok by (simp add: state_draw Let_def) (simp add: heap_ok_def)
qed

lemma heap_ok_fold_draw: "heap_ok s \<Longrightarrow> heap_ok (fold (\<lambda>m t. state (draw m t)) ms s)"
  by (induction ms arbitrary: s) (simp_all add: heap_ok_draw)

lemma heap_ok_stopDrawing: "heap_ok s \<Longrightarrow> heap_ok (state (stopDrawing s))"
proof -
  assume ok: "heap_ok s"
  let ?s1 = "s\<lparr>isDrawing := False\<rparr>"
  have s1: "heap_ok ?s1" using ok by (simp add: heap_ok_def)
  have p: "\<And>d. heap_ok (push_drawing d ?s1\<lparr>currentPath := []\<rparr>)"
    using heap_ok_push_drawing [OF s1] by (simp add: heap_ok_def)
  have q: "\<And>d. heap_ok (push_drawing d ?s1\<lparr>currentPath := [], redoStack := []\<rparr>)"
    using heap_ok_push_drawing [OF s1] by (simp add: heap_ok_def)
  show ?thesis
    using ok p q
    by (simp add: state_stopDrawing Let_def clearRedoStack_def split: option.splits)
       (simp add: heap_ok_def)
qed

lemma heap_ok_gesture: "heap_ok s \<Longrightarrow> heap_ok (gesture p ms s)"
  by (simp add: gesture_def heap_ok_stopDrawing heap_ok_fold_draw heap_ok_startDrawing)

lemma heap_ok_perform: "heap_ok s \<Longrightarrow> heap_ok (perform a s)"
  by (cases a)
    (simp_all add: heap_ok_gesture heap_ok_undo heap_ok_redo heap_ok_clearDrawing,
     simp_all add: heap_ok_def selectTool_def selectColor_def)

lemma heap_ok_run: "heap_ok s \<Longrightarrow> heap_ok (run acts s)"
  unfolding run_def by (induction acts arbitrary: s) (simp_all add: heap_ok_perform)

lemma heap_ok_script_init: "heap_ok (script_init cw ch h)"
  by (simp add: heap_ok_def)

lemma heap_ok_sessions: "heap_ok open_session" "heap_ok editor_session"
  by (simp_all add: open_session_def editor_session_def onMount_def heap_ok_def)

lemma pen_gesture_shapes:
  assumes "heap_ok s" "currentTool s = ToolPen"
  shows "shapes (gesture p ms s) =
     shapes s @ (if ms = [] then [] else [Path (p # ms) (strokeColor s) (strokeWidth s) (roughness s)])"
proof (cases "ms = []")
  case True
  have "\<not> commits (currentTool s) p ms" using assms(2) True by (simp add: commits_def)
  with assms(2) have "drawings (gesture p ms s) = drawings s \<and> heap (gesture p ms s) = heap s"
    by (intro gesture_no_commit) simp_all
  then have "shapes (gesture p ms s) = shapes s" by (intro shapes_frame) simp_all
  then show ?thesis using True by simp
next
  case False
  let ?s = "fold (\<lambda>m t. state (draw m t)) ms (state (startDrawing p s))"
  let ?s1 = "?s\<lparr>isDrawing := False\<rparr>"
  let ?D = "Path (p # ms) (strokeColor s) (strokeWidth s) (roughness s)"
  have cp: "currentPath ?s = p # ms"
    using assms(2) by (simp add: fold_draw_currentPath) (simp add: state_startDrawing Let_def)
  have dh: "drawings ?s = drawings s \<and> heap ?s = heap s"
    using assms(2) by (simp add: fold_draw_drawings startDrawing_drawings)
  have sty: "strokeColor ?s = strokeColor s \<and> roughness ?s = roughness s"
    by (simp add: fold_draw_style startDrawing_style)
  have tool: "currentTool ?s = ToolPen" "isDrawing ?s" using assms(2) by simp_all
  have ok1: "heap_ok ?s1" using assms(1) dh by (simp add: heap_ok_def)
  have "drawings (gesture p ms s) = drawings (push_drawing ?D ?s1)
      \<and> heap (gesture p ms s) = heap (push_drawing ?D ?s1)"
    unfolding gesture_def state_stopDrawing Let_def
    using tool cp sty False by (simp add: clearRedoStack_def)
  then have "shapes (gesture p ms s) = shapes (push_drawing ?D ?s1)" by (intro shapes_frame) simp_all
  also have "\<dots> = shapes ?s1 @ [?D]" using ok1 by (rule shapes_push_drawing)
  also have "shapes ?s1 = shapes s" using dh by (simp add: shapes_def)
  finally show ?thesis using False by simp
qed

lemma shape_gesture_shapes:
  assumes "heap_ok s" "currentTool s \<noteq> ToolPen" "currentTool s \<noteq> ToolEraser"
  shows "shapes (gesture p ms s) =
     shapes s @
       (case createShape (s\<lparr>startX := px p, startY := py p,
                              currentX := px (last (p # ms)), currentY := py (last (p # ms))\<rparr>) of
          None \<Rightarrow> [] | Some d \<Rightarrow> [d])"
proof -
  let ?s = "fold (\<lambda>m t. state (draw m t)) ms (state (startDrawing p s))"
  let ?s1 = "?s\<lparr>isDrawing := False\<rparr>"
  let ?t = "s\<lparr>startX := px p, startY := py p,
              currentX := px (last (p # ms)), currentY := py (last (p # ms))\<rparr>"
  have cur: "currentX ?s = px (last (p # ms))" "currentY ?s = py (last (p # ms))"
    using fold_draw_current [of "state (startDrawing p s)" ms] by simp_all
  have dh: "drawings ?s = drawings s \<and> heap ?s = heap s"
    using assms(3) by (simp add: fold_draw_drawings startDrawing_drawings)
  have sty: "strokeColor ?s = strokeColor s \<and> fillColor ?s = fillColor s \<and> roughness ?s = roughness s"
    by (simp add: fold_draw_style startDrawing_style)
  have tool: "currentTool ?s = currentTool s" "isDrawing ?s" by simp_all
  have cs: "createShape ?s1 = createShape ?t"
    by (rule createShape_eq) (simp_all add: cur sty del: last.simps)
  have ok1: "heap_ok ?s1" using assms(1) dh by (simp add: heap_ok_def)
  have sh1: "shapes ?s1 = shapes s" using dh by (simp add: shapes_def)
  show ?thesis
  proof (cases "createShape ?t")
    case None
    have "drawings (gesture p ms s) = drawings ?s1 \<and> heap (gesture p ms s) = heap ?s1"
      unfolding gesture_def state_stopDrawing Let_def
      using tool assms(2,3) cs None by (simp add: clearRedoStack_def)
    then have "shapes (gesture p ms s) = shapes ?s1" by (intro shapes_frame) simp_all
    then show ?thesis using None sh1 by simp
  next
    case (Some d)
    have "drawings (gesture p ms s) = drawings (push_drawing d ?s1)
        \<and> heap (gesture p ms s) = heap (push_drawing d ?s1)"
      unfolding gesture_def state_stopDrawing Let_def
      using tool assms(2,3) cs Some by (simp add: clearRedoStack_def)
    then have "shapes (gesture p ms s) = shapes (push_drawing d ?s1)" by (intro shapes_frame) simp_all
    also have "\<dots> = shapes ?s1 @ [d]" using ok1 by (rule shapes_push_drawing)
    finally show ?thesis using Some sh1 by simp
  qed
qed

lemma gesture_commits:
  assumes "heap_ok s" "commits (currentTool s) p ms"
  shows "\<exists>d. shapes (gesture p ms s) = shapes s @ [d]"
proof (cases "currentTool s = ToolPen")
  case True
  then have "ms \<noteq> []" using assms(2) by (simp add: commits_def)
  then show ?thesis using pen_gesture_shapes [OF assms(1) True, of p ms] by simp
next
  case False
  have ne: "currentTool s \<noteq> ToolEraser" using assms(2) by (auto simp: commits_def)
  let ?t = "s\<lparr>startX := px p, startY := py p,
              currentX := px (last (p # ms)), currentY := py (last (p # ms))\<rparr>"
  have big: "5 \<le> \<bar>px (last (p # ms)) - px p\<bar> \<or> 5 \<le> \<bar>py (last (p # ms)) - py p\<bar>"
    using assms(2) False ne by (cases "currentTool s") (simp_all add: commits_def)
  have "createShape ?t \<noteq> None"
    using big False ne
    by (cases "currentTool s") (auto simp: createShape_def Let_def simp del: last.simps)
  then obtain d where "createShape ?t = Some d" by blast
  then show ?thesis using shape_gesture_shapes [OF assms(1) False ne, of p ms] by simp
qed

section \<open>The example sessions\<close>

lemma canvas_size_800: "canvas_size 300 800 = 800" "canvas_size 150 600 = 600"
  by (simp_all add: canvas_size_def to_unsigned_long_def)

lemma open_session_state:
  "ctx open_session \<and> currentTool open_session = ToolPen \<and> shapes open_session = []
   \<and> undoStack open_session = [] \<and> redoStack open_session = []
   \<and> strokeWidth open_session = 2 \<and> canvas_width open_session = 800
   \<and> canvas_height open_session = 600"
  by (simp add: open_session_def onMount_def shapes_def read_array_def canvas_size_800)

lemma editor_session_state:
  "\<not> ctx editor_session \<and> currentTool editor_session = ToolPen \<and> shapes editor_session = []
   \<and> undoStack editor_session = [] \<and> redoStack editor_session = []
   \<and> strokeWidth editor_session = 2 \<and> canvas_width editor_session = 300
   \<and> canvas_height editor_session = 150"
  by (simp add: editor_session_def onMount_def)

lemma session_style:
  "strokeColor open_session = ''#000000'' \<and> fillColor open_session = ''transparent''
   \<and> roughness open_session = 1 \<and> strokeColor editor_session = ''#000000''
   \<and> fillColor editor_session = ''transparent'' \<and> roughness editor_session = 1"
  by (simp add: open_session_def editor_session_def onMount_def script_init_def split_beta)

lemma scenario_state:
  "shapes scenario = [Rectangle 10 10 50 50 ''#000000'' 2 ''transparent'' 1]
   \<and> undoStack scenario = [[]] \<and> redoStack scenario = []
   \<and> currentTool scenario = ToolRectangle \<and> strokeWidth scenario = 2 \<and> ctx scenario"
  by (simp add: scenario_def open_session_def gesture_def state_stopDrawing state_draw
      state_startDrawing saveState_def clearRedoStack_def createShape_def selectTool_def
      onMount_def script_init_def empty_heap_def shapes_def read_array_def push_drawing_def
      Let_def split_beta canvas_size_800)

lemma rectangle_example:
  assumes "heap_ok s" "strokeColor s = ''#000000''" "strokeWidth s = 2"
    "fillColor s = ''transparent''" "roughness s = 1"
  shows "shapes (gesture (Point 10 10) [Point 60 60] (selectTool ToolRectangle s))
         = shapes s @ [Rectangle 10 10 50 50 ''#000000'' 2 ''transparent'' 1]"
    and "shapes (gesture (Point 100 100) [Point 150 150] (selectTool ToolRectangle s))
         = shapes s @ [Rectangle 100 100 50 50 ''#000000'' 2 ''transparent'' 1]"
  using assms
  by (simp_all add: shape_gesture_shapes) (simp_all add: createShape_def selectTool_def)

lemma editor_rect_state:
  "shapes editor_rect = [Rectangle 10 10 50 50 ''#000000'' 2 ''transparent'' 1]
   \<and> undoStack editor_rect = [[]] \<and> redoStack editor_rect = []
   \<and> currentTool editor_rect = ToolRectangle \<and> strokeWidth editor_rect = 2
   \<and> \<not> ctx editor_rect \<and> heap_ok editor_rect"
  unfolding editor_rect_def
  using rectangle_example(1) [of editor_session] editor_session_state session_style
    heap_ok_sessions(2)
  by (simp add: gesture_undoStack gesture_redoStack heap_ok_gesture)

lemma editor_after_undo_state:
  "shapes editor_after_undo = []
   \<and> undoStack editor_after_undo = []
   \<and> redoStack editor_after_undo = [[Rectangle 10 10 50 50 ''#000000'' 2 ''transparent'' 1]]
   \<and> currentTool editor_after_undo = ToolRectangle \<and> strokeWidth editor_after_undo = 2
   \<and> \<not> ctx editor_after_undo \<and> heap_ok editor_after_undo"
  unfolding editor_after_undo_def
  using editor_rect_state by (simp add: shapes_undo undo_stacks heap_ok_undo)

lemma editor_after_undo_style:
  "strokeColor editor_after_undo = ''#000000'' \<and> fillColor editor_after_undo = ''transparent''
   \<and> roughness editor_after_undo = 1"
  by (simp add: editor_after_undo_def editor_rect_def session_style)

lemma erase_demo_state:
  "shapes erase_demo = [Rectangle 10 10 50 50 ''#000000'' 2 ''transparent'' 1]
   \<and> currentTool erase_demo = ToolEraser \<and> strokeWidth erase_demo = 2 \<and> ctx erase_demo"
  using scenario_state by (simp add: erase_demo_def)

lemma three_point_stroke_state:
  "shapes three_point_stroke = [Path [Point 0 0, Point 10 0, Point 20 0] ''#000000'' 2 1]
   \<and> strokeWidth three_point_stroke = 2 \<and> currentTool three_point_stroke = ToolEraser"
  using pen_gesture_shapes [of open_session "Point 0 0" "[Point 10 0, Point 20 0]"]
    open_session_state session_style heap_ok_sessions(1)
  by (simp add: three_point_stroke_def)

lemma small_snapshot_state:
  "dd_drawings small_snapshot = Some 1 \<and> next_ref stored_heap = 2
   \<and> read_array stored_heap 1 = [Line 0 0 10 10 ''#000000'' 2 1]"
  by (simp add: small_snapshot_def stored_heap_def JSON_parse_def empty_heap_def read_array_def
      split_beta)

lemma read_array_script_init:
  "r < next_ref h \<Longrightarrow> read_array (heap (script_init cw ch h)) r = read_array h r"
  by (simp add: read_array_def)

section \<open>Undo followed by redo\<close>

text \<open>
  Claim C3. In every session whose undo stack is not empty, \<open>undo\<close> followed by \<open>redo\<close>
  gives back the shape list as it was before the undo, element for element and in
  order; the two history stacks are back as they were too. This holds whether or not
  the handlers throw on redrawing: both assign before they redraw.
\<close>

theorem undo_then_redo_restores:
  assumes "undoStack s \<noteq> []"
  shows "shapes (state (redo (state (undo s)))) = shapes s
         \<and> undoStack (state (redo (state (undo s)))) = undoStack s
         \<and> redoStack (state (redo (state (undo s)))) = redoStack s"
proof -
  let ?u = "state (undo s)"
  have u: "undoStack ?u = butlast (undoStack s)" "redoStack ?u = redoStack s @ [shapes s]"
    "shapes ?u = last (undoStack s)"
    using assms by (simp_all add: undo_stacks shapes_undo)
  then have ne: "redoStack ?u \<noteq> []" by simp
  show ?thesis
    using assms by (simp add: redo_stacks [OF ne] shapes_redo [OF ne] u)
qed

theorem undo_then_redo_restores_witness:
  "undoStack scenario \<noteq> [] \<and> shapes (state (undo scenario)) = []
   \<and> shapes (state (redo (state (undo scenario)))) = shapes scenario
   \<and> shapes scenario = [Rectangle 10 10 50 50 ''#000000'' 2 ''transparent'' 1]"
  using undo_then_redo_restores [of scenario] scenario_state by (simp add: shapes_undo)

section \<open>Undo after a gesture\<close>

text \<open>\<open>undo\<close> right after a pen or shape gesture gives back the shape list the gesture
  began with; after an eraser gesture it gives back the list as the pointer-down sample
  left it.\<close>

lemma other_gesture_undo:
  assumes "currentTool s \<noteq> ToolEraser"
  shows "shapes (state (undo (gesture p ms s))) = shapes s"
proof -
  have "undoStack (gesture p ms s) \<noteq> [] \<and> last (undoStack (gesture p ms s)) = shapes s"
    using assms saveState_last
    by (simp add: gesture_undoStack_start state_startDrawing Let_def) (simp add: shapes_def)
  then show ?thesis by (simp add: shapes_undo)
qed

lemma eraser_gesture_undo:
  assumes "ctx s" "currentTool s = ToolEraser"
  shows "shapes (state (undo (gesture p ms s))) = shapes (state (erase (px p) (py p) s))"
proof -
  let ?s1 = "s\<lparr>isDrawing := True, startX := px p, startY := py p,
                 currentX := px p, currentY := py p\<rparr>"
  have "undoStack (gesture p ms s) = undoStack (saveState (state (erase (px p) (py p) ?s1)))"
    using assms by (simp add: gesture_undoStack_start state_startDrawing Let_def)
  then have "undoStack (gesture p ms s) \<noteq> []
      \<and> last (undoStack (gesture p ms s)) = shapes (state (erase (px p) (py p) ?s1))"
    using saveState_last by simp
  moreover have "shapes (state (erase (px p) (py p) ?s1)) = shapes (state (erase (px p) (py p) s))"
    by (rule shapes_erase_frame) (simp_all add: shapes_def)
  ultimately show ?thesis by (simp add: shapes_undo)
qed

lemma eraser_click:
  assumes "currentTool s = ToolEraser"
  shows "shapes (gesture p [] s) = shapes (state (erase (px p) (py p) s))"
proof -
  let ?s1 = "s\<lparr>isDrawing := True, startX := px p, startY := py p,
                 currentX := px p, currentY := py p\<rparr>"
  let ?e = "state (erase (px p) (py p) ?s1)"
  have "drawings (gesture p [] s) = drawings ?e \<and> heap (gesture p [] s) = heap ?e"
    using assms
    by (simp add: gesture_def state_stopDrawing state_startDrawing Let_def clearRedoStack_def)
  then have "shapes (gesture p [] s) = shapes ?e" by (intro shapes_frame) simp_all
  also have "\<dots> = shapes (state (erase (px p) (py p) s))"
    by (rule shapes_erase_frame) (simp_all add: shapes_def)
  finally show ?thesis .
qed

text \<open>
  Claim C1. An eraser gesture that begins with the shape list \<open>S\<close> should take its one
  history snapshot before anything of the gesture is erased, so that one \<open>undo\<close> after
  the gesture gives \<open>S\<close> back. In the code \<open>startDrawing\<close> erases at the pointer-down
  position first and saves the state afterwards: with the scenario's rectangle on the
  canvas and the eraser pressed inside it, the rectangle is gone after the gesture and
  still gone after \<open>undo\<close>.
\<close>

theorem eraser_undo_loses_first_sample:
  "shapes erase_demo = [Rectangle 10 10 50 50 ''#000000'' 2 ''transparent'' 1]
   \<and> currentTool erase_demo = ToolEraser
   \<and> shapes (gesture (Point 30 30) [] erase_demo) = []
   \<and> shapes (state (undo (gesture (Point 30 30) [] erase_demo))) = []"
proof -
  have e: "shapes (state (erase 30 30 erase_demo)) = []"
    by (simp add: shapes_erase erase_demo_state)
  have u: "shapes (state (undo (gesture (Point 30 30) [] erase_demo))) = []"
    using eraser_gesture_undo [of erase_demo "Point 30 30" "[]"] e by (simp add: erase_demo_state)
  have g: "shapes (gesture (Point 30 30) [] erase_demo) = []"
    using eraser_click [of erase_demo "Point 30 30"] e by (simp add: erase_demo_state)
  from u g erase_demo_state show ?thesis by simp
qed

section \<open>Loading and saving\<close>

text \<open>
  Claim C2, as stated: \<open>load\<close> replaces the shape list and the canvas width and height
  by those of the snapshot. It fails for a snapshot of size 400 by 300 given as the
  initial drawing of a component mounted with an 800 by 600 canvas: the shape list is
  the snapshot's, the canvas keeps its size.
\<close>

theorem load_sets_dimensions_counterexample:
  "\<not> (shapes (state (onMount True 800 600 (Some small_snapshot) (script_init 300 150 stored_heap)))
        = read_array stored_heap (the (dd_drawings small_snapshot))
      \<and> real (canvas_width
           (state (onMount True 800 600 (Some small_snapshot) (script_init 300 150 stored_heap))))
        = dd_width small_snapshot
      \<and> real (canvas_height
           (state (onMount True 800 600 (Some small_snapshot) (script_init 300 150 stored_heap))))
        = dd_height small_snapshot)"
  by (simp add: onMount_def loadDrawing_def small_snapshot_def canvas_size_800)

text \<open>
  Claim C2, amended. For a snapshot with a \<open>drawings\<close> array, \<open>load\<close> makes that array
  the current shape list and changes nothing else, the canvas width and height
  included (it returns when the context is assigned and throws on redrawing when it is
  not, after the assignment). For a null snapshot, or one without a \<open>drawings\<close> field,
  \<open>load\<close> returns with the session as it was. Mounting without an initial drawing
  gives an empty shape list.
\<close>

theorem load_replaces_shape_list_only:
  "(dd_drawings dd = Some r \<longrightarrow>
      loadDrawing (Some dd) s
        = (if ctx s then Done (s\<lparr>drawings := r\<rparr>) else Threw (s\<lparr>drawings := r\<rparr>))
      \<and> shapes (state (loadDrawing (Some dd) s)) = read_array (heap s) r)
   \<and> (dd_drawings dd = None \<longrightarrow> loadDrawing (Some dd) s = Done s)
   \<and> loadDrawing None s = Done s
   \<and> canvas_width (state (loadDrawing d s)) = canvas_width s
   \<and> canvas_height (state (loadDrawing d s)) = canvas_height s
   \<and> shapes (state (onMount bound w h None (script_init cw ch hp))) = []"
  by (simp add: loadDrawing_def onMount_def redrawCanvas_def shapes_def read_array_def
      split: option.splits)

theorem load_replaces_shape_list_only_witness:
  "dd_drawings small_snapshot = Some 1
   \<and> shapes (state (loadDrawing (Some small_snapshot) (script_init 800 600 stored_heap)))
       = [Line 0 0 10 10 ''#000000'' 2 1]
   \<and> canvas_width (state (loadDrawing (Some small_snapshot) (script_init 800 600 stored_heap))) = 800
   \<and> canvas_height (state (loadDrawing (Some small_snapshot) (script_init 800 600 stored_heap))) = 600
   \<and> dd_drawings (small_snapshot\<lparr>dd_drawings := None\<rparr>) = None
   \<and> loadDrawing (Some (small_snapshot\<lparr>dd_drawings := None\<rparr>)) (script_init 800 600 stored_heap)
       = Done (script_init 800 600 stored_heap)"
proof -
  let ?s = "script_init 800 600 stored_heap"
  have h: "dd_drawings small_snapshot = Some 1" using small_snapshot_state by simp
  have n: "dd_drawings (small_snapshot\<lparr>dd_drawings := None\<rparr>) = None" by simp
  have rd: "read_array (heap ?s) 1 = [Line 0 0 10 10 ''#000000'' 2 1]"
    using small_snapshot_state read_array_script_init [of 1 stored_heap 800 600] by simp
  note t = load_replaces_shape_list_only [of small_snapshot 1 ?s "Some small_snapshot"
      True 800 600 300 150 empty_heap]
  note t' = load_replaces_shape_list_only [of "small_snapshot\<lparr>dd_drawings := None\<rparr>" 1 ?s
      None True 800 600 300 150 empty_heap]
  from t h have a: "shapes (state (loadDrawing (Some small_snapshot) ?s)) = read_array (heap ?s) 1"
    by blast
  from t have b: "canvas_width (state (loadDrawing (Some small_snapshot) ?s)) = canvas_width ?s"
    "canvas_height (state (loadDrawing (Some small_snapshot) ?s)) = canvas_height ?s"
    by blast+
  have "shapes (state (loadDrawing (Some small_snapshot) ?s))
       = [Line 0 0 10 10 ''#000000'' 2 1]
   \<and> canvas_width (state (loadDrawing (Some small_snapshot) ?s)) = 800
   \<and> canvas_height (state (loadDrawing (Some small_snapshot) ?s)) = 600"
    unfolding a b rd by simp
  moreover from t' n have "loadDrawing (Some (small_snapshot\<lparr>dd_drawings := None\<rparr>)) ?s = Done ?s"
    by blast
  ultimately show ?thesis using h n by blast
qed



text \<open>The snapshot holds the array itself: a shape that the saving session commits
  afterwards is in the snapshot too. A component mounted while the canvas element does
  not exist loads nothing.\<close>

lemma snapshot_is_live:
  "dd_drawings (saveDrawing now s) = Some (drawings s)
   \<and> length (read_array (heap (push_drawing d s)) (drawings s)) = Suc (length (shapes s))"
  by (simp add: saveDrawing_def push_drawing_def split_beta read_array_def shapes_def)

lemma closed_mount_loads_nothing:
  "onMount False w h d (script_init cw ch hp) = Done (script_init cw ch hp)
   \<and> shapes (state (onMount False w h d (script_init cw ch hp))) = []
   \<and> \<not> ctx (state (onMount False w h d (script_init cw ch hp)))"
  by (simp add: onMount_def)

section \<open>The bound on the undo stack\<close>

lemma strokes_undoStack:
  assumes "currentTool s = ToolPen" "length (undoStack s) \<le> 50" "\<not> ctx s"
  shows "length (undoStack (run (replicate n (Gesture p ms)) s)) = min 50 (length (undoStack s) + n)
       \<and> redoStack (run (replicate n (Gesture p ms)) s) = redoStack s
       \<and> currentTool (run (replicate n (Gesture p ms)) s) = ToolPen
       \<and> \<not> ctx (run (replicate n (Gesture p ms)) s)"
  using assms
proof (induction n arbitrary: s)
  case 0
  then show ?case by (simp add: run_def)
next
  case (Suc n)
  let ?s = "gesture p ms s"
  have l: "length (undoStack ?s) = min 50 (Suc (length (undoStack s)))"
    using Suc.prems by (simp add: gesture_undoStack)
  have "length (undoStack (run (replicate n (Gesture p ms)) ?s)) = min 50 (length (undoStack ?s) + n)
       \<and> redoStack (run (replicate n (Gesture p ms)) ?s) = redoStack ?s
       \<and> currentTool (run (replicate n (Gesture p ms)) ?s) = ToolPen
       \<and> \<not> ctx (run (replicate n (Gesture p ms)) ?s)"
    using Suc.prems l by (intro Suc.IH) simp_all
  then show ?case using Suc.prems l by (simp add: run_def gesture_redoStack)
qed

text \<open>
  Claim C5. The undo stack should hold at most 50 entries in every state reached by
  gestures, undo, redo and clear-all. In the session of the note editor it does not:
  \<open>stopDrawing\<close> throws on redrawing before it clears the redo stack, so after 50
  strokes, an undo and one more stroke the redo stack is still filled, and \<open>redo\<close>,
  which pushes without evicting, leaves 51 entries.
\<close>

theorem undoStack_exceeds_50:
  "length (undoStack (run (replicate 50 (Gesture (Point 0 0) [Point 10 10])) editor_session)) = 50
   \<and> length (undoStack (run overflow_actions editor_session)) = 51"
proof -
  let ?s50 = "run (replicate 50 (Gesture (Point 0 0) [Point 10 10])) editor_session"
  have s50: "length (undoStack ?s50) = 50 \<and> redoStack ?s50 = [] \<and> currentTool ?s50 = ToolPen
      \<and> \<not> ctx ?s50"
    using strokes_undoStack [of editor_session 50 "Point 0 0" "[Point 10 10]"] editor_session_state
    by simp
  then have ne: "undoStack ?s50 \<noteq> []" by auto
  let ?u = "state (undo ?s50)"
  have u: "length (undoStack ?u) = 49" "length (redoStack ?u) = 1" "currentTool ?u = ToolPen"
    "\<not> ctx ?u"
    using s50 by (simp_all add: undo_stacks [OF ne])
  let ?g = "gesture (Point 0 0) [Point 10 10] ?u"
  have g: "length (undoStack ?g) = 50" "length (redoStack ?g) = 1"
    using u by (simp_all add: gesture_undoStack gesture_redoStack)
  then have "redoStack ?g \<noteq> []" by auto
  then have "length (undoStack (state (redo ?g))) = 51"
    using g by (simp add: redo_stacks)
  then show ?thesis
    using s50 by (simp add: overflow_actions_def run_append) (simp add: run_def)
qed

text \<open>With the context assigned and gestures taken whole, the bound holds: undo and
  redo move one entry from one stack to the other, and every gesture and clear-all
  leaves the redo stack empty.\<close>

lemma perform_inv:
  assumes "ctx s" "history_inv s"
  shows "ctx (perform a s) \<and> history_inv (perform a s)"
proof (cases a)
  case (Gesture p ms)
  have "length (undoStack s) \<le> 50" using assms(2) by (simp add: history_inv_def)
  then have "length (undoStack (state (startDrawing p s))) \<le> 50"
    by (simp add: state_startDrawing Let_def saveState_bound)
  then show ?thesis
    using assms(1) by (simp add: Gesture history_inv_def gesture_redoStack) (simp add: gesture_def)
next
  case ClearAll
  have "length (undoStack s) \<le> 50" using assms(2) by (simp add: history_inv_def)
  then have "length (undoStack (saveState s)) \<le> 50" by (rule saveState_bound)
  then show ?thesis
    using assms(1) by (simp add: ClearAll history_inv_def state_clearDrawing Let_def clearRedoStack_def)
next
  case Undo
  show ?thesis
  proof (cases "undoStack s = []")
    case True
    then show ?thesis using assms by (simp add: Undo undo_def)
  next
    case False
    then obtain n where "length (undoStack s) = Suc n" by (cases "undoStack s") auto
    then show ?thesis
      using assms False by (simp add: Undo history_inv_def undo_stacks)
  qed
next
  case Redo
  show ?thesis
  proof (cases "redoStack s = []")
    case True
    then show ?thesis using assms by (simp add: Redo redo_def)
  next
    case False
    then obtain n where "length (redoStack s) = Suc n" by (cases "redoStack s") auto
    then show ?thesis
      using assms False by (simp add: Redo history_inv_def redo_stacks)
  qed
qed (use assms in \<open>simp_all add: history_inv_def selectTool_def selectColor_def\<close>)

lemma undoStack_bound_with_context:
  "ctx s \<Longrightarrow> history_inv s \<Longrightarrow> length (undoStack (run acts s)) \<le> 50"
proof -
  have "ctx s \<Longrightarrow> history_inv s \<Longrightarrow> ctx (run acts s) \<and> history_inv (run acts s)"
    unfolding run_def by (induction acts arbitrary: s) (simp_all add: perform_inv)
  then show "ctx s \<Longrightarrow> history_inv s \<Longrightarrow> length (undoStack (run acts s)) \<le> 50"
    by (simp add: history_inv_def)
qed

text \<open>Also with the context assigned the bound is one of whole gestures: \<open>redo\<close> pushes
  without evicting, so a redo issued between a pointer-down and its pointer-up finds
  the redo stack still filled and leaves 51 entries.\<close>

lemma strokes_undoStack_any:
  assumes "currentTool s = ToolPen" "length (undoStack s) \<le> 50"
  shows "length (undoStack (run (replicate n (Gesture p ms)) s)) = min 50 (length (undoStack s) + n)
       \<and> currentTool (run (replicate n (Gesture p ms)) s) = ToolPen"
  using assms
proof (induction n arbitrary: s)
  case 0
  then show ?case by (simp add: run_def)
next
  case (Suc n)
  let ?s = "gesture p ms s"
  have l: "length (undoStack ?s) = min 50 (Suc (length (undoStack s)))"
    using Suc.prems by (simp add: gesture_undoStack)
  have "length (undoStack (run (replicate n (Gesture p ms)) ?s)) = min 50 (length (undoStack ?s) + n)
       \<and> currentTool (run (replicate n (Gesture p ms)) ?s) = ToolPen"
    using Suc.prems l by (intro Suc.IH) simp_all
  then show ?case using Suc.prems l by (simp add: run_def)
qed

lemma redo_inside_gesture_exceeds_bound:
  "ctx open_session
   \<and> length (undoStack (run (replicate 50 (Gesture (Point 0 0) [Point 10 10])) open_session)) = 50
   \<and> length (undoStack (state (redo (state (startDrawing p (state (undo
        (run (replicate 50 (Gesture (Point 0 0) [Point 10 10])) open_session)))))))) = 51"
proof -
  let ?s = "run (replicate 50 (Gesture (Point 0 0) [Point 10 10])) open_session"
  have s: "length (undoStack ?s) = 50 \<and> currentTool ?s = ToolPen"
    using strokes_undoStack_any [of open_session 50 "Point 0 0" "[Point 10 10]"] open_session_state
    by simp
  then have ne: "undoStack ?s \<noteq> []" by auto
  let ?u = "state (undo ?s)"
  have u: "length (undoStack ?u) = 49" "redoStack ?u \<noteq> []" "currentTool ?u = ToolPen"
    using s by (simp_all add: undo_stacks [OF ne])
  let ?d = "state (startDrawing p ?u)"
  have d: "length (undoStack ?d) = 50" "redoStack ?d \<noteq> []"
    using u by (simp_all add: state_startDrawing Let_def saveState_undoStack)
  then have "length (undoStack (state (redo ?d))) = 51" by (simp add: redo_stacks)
  with s open_session_state show ?thesis by simp
qed

text \<open>Committing gestures alone keep the snapshots of the 50 most recent commits,
  whether the context is assigned or not: \<open>saveState\<close> evicts the oldest entry.\<close>

lemma snapshots_step:
  assumes "u = snapshots_of ds"
  shows "(if length u < 50 then u @ [ds] else tl (u @ [ds])) = snapshots_of (ds @ [sh])"
proof (cases "length ds < 50")
  case True
  then show ?thesis using assms by (simp add: snapshots_of_def)
next
  case False
  define n where "n = length ds"
  define m where "m = n - 50"
  have mn: "m < n" using False by (simp add: n_def m_def)
  have l2: "length (ds @ [sh]) = Suc n" "Suc n - 50 = Suc m"
    using False by (simp_all add: n_def m_def)
  have same: "map (\<lambda>k. take k (ds @ [sh])) [Suc m..<n] = map (\<lambda>k. take k ds) [Suc m..<n]"
    by (rule map_cong) (simp_all add: n_def)
  have "[m..<n] = m # [Suc m..<n]" using mn by (rule upt_conv_Cons)
  then have u: "u = take m ds # map (\<lambda>k. take k ds) [Suc m..<n]"
    using assms by (simp add: snapshots_of_def n_def [symmetric] m_def [symmetric])
  have len: "length u = 50" using assms False by (simp add: snapshots_of_def)
  have up: "[Suc m..<Suc n] = [Suc m..<n] @ [n]" using mn by simp
  have "snapshots_of (ds @ [sh]) = map (\<lambda>k. take k (ds @ [sh])) [Suc m..<Suc n]"
    by (simp only: snapshots_of_def l2)
  also have "\<dots> = map (\<lambda>k. take k (ds @ [sh])) [Suc m..<n] @ [take n (ds @ [sh])]"
    by (simp only: up map_append list.map)
  also have "\<dots> = map (\<lambda>k. take k ds) [Suc m..<n] @ [ds]"
    unfolding same by (simp add: n_def)
  finally have rhs: "snapshots_of (ds @ [sh]) = map (\<lambda>k. take k ds) [Suc m..<n] @ [ds]" .
  have "(if length u < 50 then u @ [ds] else tl (u @ [ds])) = tl (u @ [ds])"
    by (simp add: len)
  also have "\<dots> = map (\<lambda>k. take k ds) [Suc m..<n] @ [ds]"
    unfolding u by simp
  finally show ?thesis by (simp only: rhs)
qed

lemma commits_keep_recent_snapshots:
  assumes "heap_ok s" "currentTool s \<noteq> ToolEraser" "undoStack s = snapshots_of (shapes s)"
      and "list_all (\<lambda>(p, ms). commits (currentTool s) p ms) gs"
  shows "length (shapes (run (map (\<lambda>(p, ms). Gesture p ms) gs) s)) = length (shapes s) + length gs
         \<and> undoStack (run (map (\<lambda>(p, ms). Gesture p ms) gs) s)
             = snapshots_of (shapes (run (map (\<lambda>(p, ms). Gesture p ms) gs) s))"
  using assms
proof (induction gs arbitrary: s)
  case Nil
  then show ?case by (simp add: run_def)
next
  case (Cons g gs)
  obtain p ms where g: "g = (p, ms)" by (cases g)
  let ?s = "gesture p ms s"
  from Cons.prems g have c: "commits (currentTool s) p ms" by simp
  then obtain sh where sh: "shapes ?s = shapes s @ [sh]"
    using gesture_commits Cons.prems(1) by blast
  have u: "undoStack ?s = snapshots_of (shapes ?s)"
    using snapshots_step [OF Cons.prems(3)] Cons.prems(2,3) by (simp add: gesture_undoStack sh)
  have "length (shapes (run (map (\<lambda>(p, ms). Gesture p ms) gs) ?s)) = length (shapes ?s) + length gs
         \<and> undoStack (run (map (\<lambda>(p, ms). Gesture p ms) gs) ?s)
             = snapshots_of (shapes (run (map (\<lambda>(p, ms). Gesture p ms) gs) ?s))"
    using Cons.prems by (intro Cons.IH) (simp_all add: u heap_ok_gesture)
  then show ?case by (simp add: run_def g sh)
qed

section \<open>Redo after a new action\<close>

lemma gesture_without_context:
  "\<not> ctx s \<Longrightarrow> redoStack (gesture p ms s) = redoStack s"
  by (simp add: gesture_redoStack)

text \<open>
  Claim C6. After a committed shape or clear-all the redo stack should be empty and
  \<open>redo\<close> without effect. In the session of the note editor, after a rectangle and an
  undo, a second rectangle is committed and the redo stack still holds the first one:
  \<open>redo\<close> replaces the second rectangle by the first. Clear-all leaves the redo stack
  filled as well.
\<close>

theorem redo_survives_new_action:
  "\<not> ctx editor_after_undo
   \<and> shapes editor_after_undo = []
   \<and> redoStack editor_after_undo = [[Rectangle 10 10 50 50 ''#000000'' 2 ''transparent'' 1]]
   \<and> shapes (gesture (Point 100 100) [Point 150 150] editor_after_undo)
       = [Rectangle 100 100 50 50 ''#000000'' 2 ''transparent'' 1]
   \<and> redoStack (gesture (Point 100 100) [Point 150 150] editor_after_undo)
       = [[Rectangle 10 10 50 50 ''#000000'' 2 ''transparent'' 1]]
   \<and> shapes (state (redo (gesture (Point 100 100) [Point 150 150] editor_after_undo)))
       = [Rectangle 10 10 50 50 ''#000000'' 2 ''transparent'' 1]
   \<and> shapes (state (clearDrawing editor_after_undo)) = []
   \<and> redoStack (state (clearDrawing editor_after_undo))
       = [[Rectangle 10 10 50 50 ''#000000'' 2 ''transparent'' 1]]"
proof -
  note st = editor_after_undo_state editor_after_undo_style
  let ?g = "gesture (Point 100 100) [Point 150 150] editor_after_undo"
  have sel: "selectTool ToolRectangle editor_after_undo = editor_after_undo"
    using st by (simp add: selectTool_same)
  have g: "shapes ?g = [Rectangle 100 100 50 50 ''#000000'' 2 ''transparent'' 1]"
    using rectangle_example(2) [of editor_after_undo] st by (simp add: sel)
  have r: "redoStack ?g = [[Rectangle 10 10 50 50 ''#000000'' 2 ''transparent'' 1]]"
    using st by (simp add: gesture_redoStack)
  then have "shapes (state (redo ?g)) = [Rectangle 10 10 50 50 ''#000000'' 2 ''transparent'' 1]"
    by (simp add: shapes_redo)
  with g r st show ?thesis by (simp add: clearDrawing_redoStack)
qed

text \<open>With the context assigned, the end of every gesture and clear-all empty the redo
  stack, and \<open>redo\<close> is then without effect.\<close>

lemma redo_cleared_with_context:
  assumes "ctx s"
  shows "redoStack (gesture p ms s) = []" "redo (gesture p ms s) = Done (gesture p ms s)"
    "redoStack (state (clearDrawing s)) = []"
    "redo (state (clearDrawing s)) = Done (state (clearDrawing s))"
  using assms by (simp_all add: gesture_redoStack clearDrawing_redoStack redo_empty)

section \<open>Gestures that commit nothing\<close>

text \<open>
  Claim C7. A rectangle, circle or line gesture whose end point is less than 5 away
  from its anchor on both axes: at pointer-up the handlers hold the anchor and the end
  point, \<open>createShape\<close> returns null there, and the gesture leaves the shape list as it
  was.
\<close>

theorem small_shape_gesture_discarded:
  assumes "currentTool s = ToolRectangle \<or> currentTool s = ToolCircle \<or> currentTool s = ToolLine"
      and "\<bar>px (last (p # ms)) - px p\<bar> < 5" and "\<bar>py (last (p # ms)) - py p\<bar> < 5"
  shows "startX (fold (\<lambda>m t. state (draw m t)) ms (state (startDrawing p s))) = px p
       \<and> startY (fold (\<lambda>m t. state (draw m t)) ms (state (startDrawing p s))) = py p
       \<and> currentX (fold (\<lambda>m t. state (draw m t)) ms (state (startDrawing p s))) = px (last (p # ms))
       \<and> currentY (fold (\<lambda>m t. state (draw m t)) ms (state (startDrawing p s))) = py (last (p # ms))
       \<and> createShape (fold (\<lambda>m t. state (draw m t)) ms (state (startDrawing p s))) = None
       \<and> shapes (gesture p ms s) = shapes s"
proof -
  let ?s = "fold (\<lambda>m t. state (draw m t)) ms (state (startDrawing p s))"
  have cur: "currentX ?s = px (last (p # ms))" "currentY ?s = py (last (p # ms))"
    using fold_draw_current [of "state (startDrawing p s)" ms] by simp_all
  have st: "startX ?s = px p" "startY ?s = py p" by simp_all
  have c: "createShape ?s = None"
    using assms(2,3) by (intro createShape_small) (simp_all add: cur del: last.simps)
  have "currentTool s \<noteq> ToolEraser" "\<not> commits (currentTool s) p ms"
    using assms by (auto simp: commits_def simp del: last.simps)
  then have "drawings (gesture p ms s) = drawings s \<and> heap (gesture p ms s) = heap s"
    by (rule gesture_no_commit)
  then have "shapes (gesture p ms s) = shapes s" by (simp add: shapes_def)
  with cur st c show ?thesis by simp
qed

theorem small_shape_gesture_discarded_witness:
  "currentTool scenario = ToolRectangle
   \<and> \<bar>px (last (Point 100 100 # [Point 103 104])) - px (Point 100 100)\<bar> < 5
   \<and> \<bar>py (last (Point 100 100 # [Point 103 104])) - py (Point 100 100)\<bar> < 5
   \<and> createShape (fold (\<lambda>m t. state (draw m t)) [Point 103 104]
         (state (startDrawing (Point 100 100) scenario))) = None
   \<and> shapes (gesture (Point 100 100) [Point 103 104] scenario)
       = [Rectangle 10 10 50 50 ''#000000'' 2 ''transparent'' 1]"
proof -
  have h: "currentTool scenario = ToolRectangle
   \<and> \<bar>px (last (Point 100 100 # [Point 103 104])) - px (Point 100 100)\<bar> < 5
   \<and> \<bar>py (last (Point 100 100 # [Point 103 104])) - py (Point 100 100)\<bar> < 5"
    using scenario_state by simp
  from small_shape_gesture_discarded [of scenario "Point 100 100" "[Point 103 104]"]
    h scenario_state show ?thesis by simp
qed

text \<open>
  Claim C10. The end of a gesture should clear the redo stack whatever the gesture did,
  so that a stray click after an undo makes \<open>redo\<close> a no-op. In the session of the note
  editor a click that commits nothing after an undo leaves the shape list unchanged
  and the redo stack filled: \<open>redo\<close> still brings the rectangle back.
\<close>

theorem stray_click_keeps_redo:
  "\<not> ctx editor_after_undo
   \<and> redoStack editor_after_undo = [[Rectangle 10 10 50 50 ''#000000'' 2 ''transparent'' 1]]
   \<and> shapes (gesture (Point 5 5) [] editor_after_undo) = shapes editor_after_undo
   \<and> redoStack (gesture (Point 5 5) [] editor_after_undo)
       = [[Rectangle 10 10 50 50 ''#000000'' 2 ''transparent'' 1]]
   \<and> shapes (state (redo (gesture (Point 5 5) [] editor_after_undo)))
       = [Rectangle 10 10 50 50 ''#000000'' 2 ''transparent'' 1]"
proof -
  note st = editor_after_undo_state
  let ?g = "gesture (Point 5 5) [] editor_after_undo"
  have "\<not> commits (currentTool editor_after_undo) (Point 5 5) []"
    using st by (simp add: commits_def)
  then have "drawings ?g = drawings editor_after_undo \<and> heap ?g = heap editor_after_undo"
    using st by (intro gesture_no_commit) simp_all
  then have g: "shapes ?g = shapes editor_after_undo" by (intro shapes_frame) simp_all
  have r: "redoStack ?g = [[Rectangle 10 10 50 50 ''#000000'' 2 ''transparent'' 1]]"
    using st by (simp add: gesture_redoStack)
  then have "shapes (state (redo ?g)) = [Rectangle 10 10 50 50 ''#000000'' 2 ''transparent'' 1]"
    by (simp add: shapes_redo)
  with g r st show ?thesis by simp
qed

section \<open>Erasing points of freehand paths\<close>

lemma sqrt_gt_iff: "0 \<le> r \<Longrightarrow> (sqrt a > r) = (a > r\<^sup>2)"
  by (metis real_sqrt_less_iff real_sqrt_abs abs_of_nonneg)

lemma erase_paths:
  "filter is_path (map (\<lambda>d. fst (erase_drawing x y r d))
                     (filter (\<lambda>d. snd (erase_drawing x y r d)) ds))
   = concat (map (erased_path x y r) (filter is_path ds))"
proof (induction ds)
  case Nil
  then show ?case by simp
next
  case (Cons d ds)
  then show ?case
    by (cases d) (simp_all add: Let_def not_le not_less)
qed

lemma erase_three_points:
  assumes "dist_to x y b \<le> r" "r < dist_to x y a" "r < dist_to x y c"
  shows "erase_drawing x y r (Path [a, b, c] sc sw ro) = (Path [a, c] sc sw ro, True)"
  using assms by simp

text \<open>
  Claim C8. One erase sample at \<open>(x, y)\<close> with stroke width \<open>w\<close> turns the freehand paths
  of the shape list, in order, into what \<open>erased_path\<close> describes for the radius
  \<open>w * 3\<close>. A path of three points whose middle point is within the radius and whose
  end points are not becomes the path of its two end points, in its place in the list:
  between what the sample leaves of the shapes before it and of the shapes after it.
\<close>

theorem erase_removes_near_points:
  "filter is_path (shapes (state (erase x y s)))
     = concat (map (erased_path x y (strokeWidth s * 3)) (filter is_path (shapes s)))
   \<and> (dist_to x y b \<le> strokeWidth s * 3 \<and> strokeWidth s * 3 < dist_to x y a
        \<and> strokeWidth s * 3 < dist_to x y c
        \<and> shapes s = pre @ [Path [a, b, c] sc sw ro] @ post
        \<and> shapes t = pre \<and> strokeWidth t = strokeWidth s
        \<and> shapes t' = post \<and> strokeWidth t' = strokeWidth s
      \<longrightarrow> shapes (state (erase x y s))
            = shapes (state (erase x y t)) @ [Path [a, c] sc sw ro]
              @ shapes (state (erase x y t')))"
proof (intro conjI impI)
  show "filter is_path (shapes (state (erase x y s)))
     = concat (map (erased_path x y (strokeWidth s * 3)) (filter is_path (shapes s)))"
    by (simp only: shapes_erase erase_paths)
next
  assume a: "dist_to x y b \<le> strokeWidth s * 3 \<and> strokeWidth s * 3 < dist_to x y a
        \<and> strokeWidth s * 3 < dist_to x y c
        \<and> shapes s = pre @ [Path [a, b, c] sc sw ro] @ post
        \<and> shapes t = pre \<and> strokeWidth t = strokeWidth s
        \<and> shapes t' = post \<and> strokeWidth t' = strokeWidth s"
  then have "erase_drawing x y (strokeWidth s * 3) (Path [a, b, c] sc sw ro)
      = (Path [a, c] sc sw ro, True)"
    by (intro erase_three_points) simp_all
  with a show "shapes (state (erase x y s))
            = shapes (state (erase x y t)) @ [Path [a, c] sc sw ro]
              @ shapes (state (erase x y t'))"
    by (simp add: shapes_erase)
qed

theorem erase_removes_near_points_witness:
  "dist_to 10 0 (Point 10 0) \<le> strokeWidth three_point_stroke * 3
   \<and> strokeWidth three_point_stroke * 3 < dist_to 10 0 (Point 0 0)
   \<and> strokeWidth three_point_stroke * 3 < dist_to 10 0 (Point 20 0)
   \<and> shapes three_point_stroke
       = [] @ [Path [Point 0 0, Point 10 0, Point 20 0] ''#000000'' 2 1] @ []
   \<and> shapes (selectTool ToolEraser open_session) = []
   \<and> strokeWidth (selectTool ToolEraser open_session) = strokeWidth three_point_stroke
   \<and> shapes (state (erase 10 0 three_point_stroke))
       = [Path [Point 0 0, Point 20 0] ''#000000'' 2 1]"
proof -
  let ?t = "selectTool ToolEraser open_session"
  have h: "dist_to 10 0 (Point 10 0) \<le> strokeWidth three_point_stroke * 3
   \<and> strokeWidth three_point_stroke * 3 < dist_to 10 0 (Point 0 0)
   \<and> strokeWidth three_point_stroke * 3 < dist_to 10 0 (Point 20 0)
   \<and> shapes three_point_stroke
       = [] @ [Path [Point 0 0, Point 10 0, Point 20 0] ''#000000'' 2 1] @ []"
    by (simp add: three_point_stroke_state dist_to_def sqrt_gt_iff)
  have t: "shapes ?t = [] \<and> strokeWidth ?t = strokeWidth three_point_stroke"
    using open_session_state three_point_stroke_state by simp
  then have e: "shapes (state (erase 10 0 ?t)) = []" by (simp add: shapes_erase)
  from erase_removes_near_points [of 10 0 three_point_stroke "Point 10 0" "Point 0 0" "Point 20 0"
      "[]" "''#000000''" 2 1 "[]" ?t ?t] h t e
  have "shapes (state (erase 10 0 three_point_stroke))
      = [Path [Point 0 0, Point 20 0] ''#000000'' 2 1]"
    by simp
  with h t show ?thesis by blast
qed

section \<open>The hit test of a line\<close>

lemma distinct_pos:
  fixes x1 y1 x2 y2 :: real
  assumes "(x1, y1) \<noteq> (x2, y2)"
  shows "0 < (x2 - x1)\<^sup>2 + (y2 - y1)\<^sup>2"
proof -
  have "x2 - x1 \<noteq> 0 \<or> y2 - y1 \<noteq> 0" using assms by auto
  then show ?thesis by (metis sum_power2_gt_zero_iff)
qed

lemma dist_sq_decomp:
  fixes x y x1 y1 x2 y2 t :: real
  defines "D \<equiv> (x2 - x1)\<^sup>2 + (y2 - y1)\<^sup>2"
  defines "c \<equiv> (y2 - y1) * x - (x2 - x1) * y + x2 * y1 - y2 * x1"
  assumes D: "0 < D"
  shows "(x1 + t * (x2 - x1) - x)\<^sup>2 + (y1 + t * (y2 - y1) - y)\<^sup>2
         = c\<^sup>2 / D + (t - foot_param x y x1 y1 x2 y2)\<^sup>2 * D"
proof -
  define dx where "dx = x2 - x1"
  define dy where "dy = y2 - y1"
  define vx where "vx = x - x1"
  define vy where "vy = y - y1"
  have Dd: "D = dx\<^sup>2 + dy\<^sup>2" by (simp add: D_def dx_def dy_def)
  have cd: "c = dy * vx - dx * vy" by (simp add: c_def dx_def dy_def vx_def vy_def algebra_simps)
  have f: "foot_param x y x1 y1 x2 y2 = (vx * dx + vy * dy) / D"
    by (simp add: foot_param_def D_def dx_def dy_def vx_def vy_def)
  have l: "x1 + t * (x2 - x1) - x = t * dx - vx" "y1 + t * (y2 - y1) - y = t * dy - vy"
    by (simp_all add: dx_def dy_def vx_def vy_def)
  have "((t * dx - vx)\<^sup>2 + (t * dy - vy)\<^sup>2) * D
        = (dy * vx - dx * vy)\<^sup>2 + (t * D - (vx * dx + vy * dy))\<^sup>2"
    unfolding Dd by (simp add: power2_eq_square algebra_simps)
  moreover have "(c\<^sup>2 / D + (t - (vx * dx + vy * dy) / D)\<^sup>2 * D) * D
        = (dy * vx - dx * vy)\<^sup>2 + (t * D - (vx * dx + vy * dy))\<^sup>2"
  proof -
    have "(t - (vx * dx + vy * dy) / D) * D = t * D - (vx * dx + vy * dy)"
      using D by (simp add: field_simps)
    then have "(t - (vx * dx + vy * dy) / D)\<^sup>2 * D * D = (t * D - (vx * dx + vy * dy))\<^sup>2"
      by (simp add: power2_eq_square mult.assoc mult.left_commute)
    moreover have "c\<^sup>2 / D * D = (dy * vx - dx * vy)\<^sup>2" using D by (simp add: cd)
    ultimately show ?thesis by (simp add: distrib_right)
  qed
  ultimately have "((t * dx - vx)\<^sup>2 + (t * dy - vy)\<^sup>2) * D
      = (c\<^sup>2 / D + (t - (vx * dx + vy * dy) / D)\<^sup>2 * D) * D" by simp
  then have "(t * dx - vx)\<^sup>2 + (t * dy - vy)\<^sup>2
      = c\<^sup>2 / D + (t - (vx * dx + vy * dy) / D)\<^sup>2 * D" using D by simp
  then show ?thesis by (simp only: l f)
qed

lemma perp_dist_formula:
  fixes x y x1 y1 x2 y2 :: real
  assumes "(x1, y1) \<noteq> (x2, y2)"
  shows "perp_dist x y x1 y1 x2 y2
         = \<bar>(y2 - y1) * x - (x2 - x1) * y + x2 * y1 - y2 * x1\<bar>
             / sqrt ((x2 - x1)\<^sup>2 + (y2 - y1)\<^sup>2)"
proof -
  have D: "0 < (x2 - x1)\<^sup>2 + (y2 - y1)\<^sup>2" using assms by (rule distinct_pos)
  show ?thesis
    unfolding perp_dist_def dist_to_def line_point_def point.sel
    by (simp only: dist_sq_decomp [OF D]) (simp add: real_sqrt_divide)
qed

lemma perp_dist_least:
  fixes x y x1 y1 x2 y2 :: real
  assumes "(x1, y1) \<noteq> (x2, y2)"
  shows "perp_dist x y x1 y1 x2 y2 \<le> dist_to x y (line_point x1 y1 x2 y2 t)"
proof -
  have D: "0 < (x2 - x1)\<^sup>2 + (y2 - y1)\<^sup>2" using assms by (rule distinct_pos)
  have "0 \<le> (t - foot_param x y x1 y1 x2 y2)\<^sup>2 * ((x2 - x1)\<^sup>2 + (y2 - y1)\<^sup>2)"
    by (intro mult_nonneg_nonneg add_nonneg_nonneg zero_le_power2)
  then show ?thesis
    unfolding perp_dist_def dist_to_def line_point_def point.sel
    by (simp only: dist_sq_decomp [OF D] real_sqrt_le_iff) simp
qed

lemma foot_perpendicular:
  fixes x y x1 y1 x2 y2 :: real
  assumes "(x1, y1) \<noteq> (x2, y2)"
  defines "f \<equiv> line_point x1 y1 x2 y2 (foot_param x y x1 y1 x2 y2)"
  shows "(px f - x) * (x2 - x1) + (py f - y) * (y2 - y1) = 0"
proof -
  define D where "D = (x2 - x1)\<^sup>2 + (y2 - y1)\<^sup>2"
  define t where "t = foot_param x y x1 y1 x2 y2"
  have "0 < D" unfolding D_def using assms(1) by (rule distinct_pos)
  then have "t * D = (x - x1) * (x2 - x1) + (y - y1) * (y2 - y1)"
    by (simp add: t_def foot_param_def D_def [symmetric])
  moreover have "(px f - x) * (x2 - x1) + (py f - y) * (y2 - y1)
      = t * D - ((x - x1) * (x2 - x1) + (y - y1) * (y2 - y1))"
    by (simp add: f_def line_point_def t_def [symmetric] D_def power2_eq_square algebra_simps)
  ultimately show ?thesis by simp
qed

lemma line_hit_iff:
  assumes "(x1, y1) \<noteq> (x2, y2)"
  shows "isPointInShape x y (Line x1 y1 x2 y2 sc sw ro) r \<longleftrightarrow> perp_dist x y x1 y1 x2 y2 \<le> r"
proof -
  have "0 < sqrt ((x2 - x1)\<^sup>2 + (y2 - y1)\<^sup>2)"
    using distinct_pos [OF assms] by (simp only: real_sqrt_gt_0_iff)
  then have "sqrt ((x2 - x1)\<^sup>2 + (y2 - y1)\<^sup>2) = 0 \<longleftrightarrow> False" by (metis less_irrefl)
  then show ?thesis
    by (simp only: isPointInShape.simps Let_def perp_dist_formula [OF assms] if_False)
qed

lemma line_hit_exists:
  assumes "(x1, y1) \<noteq> (x2, y2)"
  shows "isPointInShape x y (Line x1 y1 x2 y2 sc sw ro) r
         \<longleftrightarrow> (\<exists>t. dist_to x y (line_point x1 y1 x2 y2 t) \<le> r)"
proof
  assume "isPointInShape x y (Line x1 y1 x2 y2 sc sw ro) r"
  then have "perp_dist x y x1 y1 x2 y2 \<le> r" by (simp only: line_hit_iff [OF assms])
  then show "\<exists>t. dist_to x y (line_point x1 y1 x2 y2 t) \<le> r"
    unfolding perp_dist_def by blast
next
  assume "\<exists>t. dist_to x y (line_point x1 y1 x2 y2 t) \<le> r"
  then obtain t where "dist_to x y (line_point x1 y1 x2 y2 t) \<le> r" by blast
  with perp_dist_least [OF assms, of x y t] have "perp_dist x y x1 y1 x2 y2 \<le> r" by linarith
  then show "isPointInShape x y (Line x1 y1 x2 y2 sc sw ro) r" by (simp only: line_hit_iff [OF assms])
qed

lemma line_hit_on_extension:
  assumes "(x1, y1) \<noteq> (x2, y2)" "0 \<le> r"
  shows "isPointInShape (x1 + t * (x2 - x1)) (y1 + t * (y2 - y1)) (Line x1 y1 x2 y2 sc sw ro) r"
proof -
  have "dist_to (x1 + t * (x2 - x1)) (y1 + t * (y2 - y1)) (line_point x1 y1 x2 y2 t) = 0"
    by (simp add: dist_to_def line_point_def)
  with assms(2) have "\<exists>u. dist_to (x1 + t * (x2 - x1)) (y1 + t * (y2 - y1)) (line_point x1 y1 x2 y2 u) \<le> r"
    by (intro exI [of _ t]) simp
  then show ?thesis by (simp only: line_hit_exists [OF assms(1)])
qed

text \<open>
  Claim C9. For a line with distinct end points, the hit test holds exactly when the
  perpendicular distance of the query point to the infinite line through the end points
  is at most the radius; equivalently, when some point of the infinite line is within
  the radius. Nothing clamps to the segment: every point of the infinite line, at any
  parameter, is a hit for every radius from 0 on.
\<close>

theorem line_hit_test_unclamped:
  assumes "(x1, y1) \<noteq> (x2, y2)"
  shows "(isPointInShape x y (Line x1 y1 x2 y2 sc sw ro) r \<longleftrightarrow> perp_dist x y x1 y1 x2 y2 \<le> r)
       \<and> (isPointInShape x y (Line x1 y1 x2 y2 sc sw ro) r
            \<longleftrightarrow> (\<exists>t. dist_to x y (line_point x1 y1 x2 y2 t) \<le> r))
       \<and> (0 \<le> r \<longrightarrow>
            isPointInShape (x1 + t * (x2 - x1)) (y1 + t * (y2 - y1)) (Line x1 y1 x2 y2 sc sw ro) r)"
  using line_hit_iff [OF assms] line_hit_exists [OF assms] line_hit_on_extension [OF assms]
  by blast

theorem line_hit_test_unclamped_witness:
  "((0::real), (0::real)) \<noteq> (10, 0)
   \<and> perp_dist 100 1 0 0 10 0 = 1
   \<and> isPointInShape 100 1 (Line 0 0 10 0 ''#000000'' 2 1) 6
   \<and> \<not> isPointInShape 100 7 (Line 0 0 10 0 ''#000000'' 2 1) 6
   \<and> isPointInShape 100 0 (Line 0 0 10 0 ''#000000'' 2 1) 0
   \<and> 6 < dist_to 100 1 (Point 10 0)"
proof -
  have d: "((0::real), (0::real)) \<noteq> (10, 0)" by simp
  have p1: "perp_dist 100 1 0 0 10 0 = 1"
    by (simp add: perp_dist_def foot_param_def line_point_def dist_to_def)
  have p7: "perp_dist 100 7 0 0 10 0 = 7"
    by (simp add: perp_dist_def foot_param_def line_point_def dist_to_def)
  note t1 = line_hit_test_unclamped [OF d, of 100 1 "''#000000''" 2 1 6 10]
  note t7 = line_hit_test_unclamped [OF d, of 100 7 "''#000000''" 2 1 6 10]
  note t0 = line_hit_test_unclamped [OF d, of 100 0 "''#000000''" 2 1 0 10]
  have h1: "isPointInShape 100 1 (Line 0 0 10 0 ''#000000'' 2 1) 6" using t1 p1 by simp
  have h7: "\<not> isPointInShape 100 7 (Line 0 0 10 0 ''#000000'' 2 1) 6" using t7 p7 by simp
  have h0: "isPointInShape 100 0 (Line 0 0 10 0 ''#000000'' 2 1) 0" using t0 by simp
  have far: "6 < dist_to 100 1 (Point 10 0)" by (simp add: dist_to_def sqrt_gt_iff)
  from d p1 h1 h7 h0 far show ?thesis by blast
qed

end
